theory Spec2Isabelle
  imports Complex_Main "HOL-Library.Multiset" "HOL-Library.List_Lexorder"
begin

section \<open>Python values\<close>

text \<open>
  A Python \<open>str\<close> is a sequence of Unicode code points, so it is modelled as a list of
  natural numbers (the section labels of the parser hold an en dash, code point 8211, and
  \<open>str.strip\<close> removes white space beyond ASCII). \<open>ascii\<close> turns an ASCII literal
  into such a list.
\<close>

type_synonym pystr = "nat list"

definition ascii :: "string \<Rightarrow> pystr" where
  "ascii s = map of_char s"

text \<open>The characters for which \<open>str.isspace\<close> holds.\<close>

definition isspace :: "nat \<Rightarrow> bool" where
  "isspace c \<longleftrightarrow>
     (9 \<le> c \<and> c \<le> 13) \<or> (28 \<le> c \<and> c \<le> 32) \<or> c = 133 \<or> c = 160 \<or> c = 5760 \<or>
     (8192 \<le> c \<and> c \<le> 8202) \<or> c = 8232 \<or> c = 8233 \<or> c = 8239 \<or> c = 8287 \<or> c = 12288"

definition lstrip :: "pystr \<Rightarrow> pystr" where
  "lstrip s = dropWhile isspace s"

definition rstrip :: "pystr \<Rightarrow> pystr" where
  "rstrip s = rev (dropWhile isspace (rev s))"

definition strip :: "pystr \<Rightarrow> pystr" where
  "strip s = rstrip (lstrip s)"

definition startswith :: "pystr \<Rightarrow> pystr \<Rightarrow> bool" where
  "startswith s p \<longleftrightarrow> take (length p) s = p"

text \<open>\<open>sep.join(parts)\<close>.\<close>

fun join :: "pystr \<Rightarrow> pystr list \<Rightarrow> pystr" where
  "join sep [] = []"
| "join sep [x] = x"
| "join sep (x # y # ys) = x @ sep @ join sep (y # ys)"

text \<open>
  \<open>s.split(sep)\<close> for a separator given explicitly: the text is cut at every occurrence of
  \<open>sep\<close>, found from the left and not overlapping, and the result always has at least one
  piece. \<open>cur\<close> is the piece being read. Python raises \<open>ValueError\<close> for an empty
  separator; every call of the source passes a literal, non-empty one.
\<close>

function split_from :: "pystr \<Rightarrow> pystr \<Rightarrow> pystr \<Rightarrow> pystr list" where
  "split_from sep cur [] = [cur]"
| "split_from sep cur (c # cs) =
     (if sep \<noteq> [] \<and> take (length sep) (c # cs) = sep
      then cur # split_from sep [] (drop (length sep) (c # cs))
      else split_from sep (cur @ [c]) cs)"
  by pat_completeness auto
termination
  by (relation "measure (\<lambda>(sep, cur, s). length s)") auto

definition py_split :: "pystr \<Rightarrow> pystr \<Rightarrow> pystr list" where
  "py_split s sep = split_from sep [] s"

text \<open>
  \<open>s.rsplit(sep, 1)\<close> for a one-character separator: the text is read from its right end
  and cut at the first separator met, giving two pieces, or one piece when there is none.
  The first argument of the loop is the unread part, reversed.
\<close>

fun rsplit1_from :: "nat \<Rightarrow> pystr \<Rightarrow> pystr \<Rightarrow> pystr list" where
  "rsplit1_from sep [] acc = [acc]"
| "rsplit1_from sep (c # rs) acc =
     (if c = sep then [rev rs, acc] else rsplit1_from sep rs (c # acc))"

definition rsplit1 :: "pystr \<Rightarrow> nat \<Rightarrow> pystr list" where
  "rsplit1 s sep = rsplit1_from sep (rev s) []"

text \<open>
  \<open>str.lower\<close> on the ASCII letters. On other code points Python applies the Unicode
  lower-case mapping, under which no character outside ASCII becomes one of the letters of
  \<open>pdf\<close>, \<open>docx\<close> or \<open>txt\<close>, the only words the result is compared with.
\<close>

definition lower :: "pystr \<Rightarrow> pystr" where
  "lower s = map (\<lambda>c. if 65 \<le> c \<and> c \<le> 90 then c + 32 else c) s"

text \<open>\<open>str(n)\<close> for a non-negative integer: its decimal digits.\<close>

fun py_str :: "nat \<Rightarrow> pystr" where
  "py_str n = (if n < 10 then [48 + n] else py_str (n div 10) @ [48 + n mod 10])"

declare py_str.simps [simp del]

text \<open>
  Exceptions. \<open>LibraryError\<close> stands for whatever a call into a library raises (a file
  that cannot be opened, a failed network call); the libraries are parameters of the
  model that return either the message of such an exception or a value.
\<close>

datatype exn =
    ValueError pystr
  | KeyError pystr
  | TypeError
  | HTTPException nat pystr
  | LibraryError pystr

fun library :: "pystr + 'a \<Rightarrow> exn + 'a" where
  "library (Inl msg) = Inl (LibraryError msg)"
| "library (Inr v) = Inr v"

section \<open>services/parser.py\<close>

text \<open>
  What pdfplumber gives for a page: \<open>extract_tables()\<close> (tables of rows of cells, a cell
  being a string or \<open>None\<close>), \<open>find_tables()\<close> (of which the source keeps the bounding
  boxes) and \<open>extract_text()\<close>.
\<close>

type_synonym pdf_table = "pystr option list list"

record pdf_page =
  extract_tables :: "pdf_table list"
  find_tables :: "(rat \<times> rat \<times> rat \<times> rat) list"
  extract_text :: "pystr option"

text \<open>What python-docx gives for a document: the cell texts of its tables, row by row,
  and the texts of its paragraphs.\<close>

record docx_document =
  tables :: "pystr list list list"
  paragraphs :: "pystr list"

text \<open>The three readers: each opens the file at a path, or raises.\<close>

record readers =
  pdfplumber_open :: "pystr \<Rightarrow> pystr + pdf_page list"
  docx_Document :: "pystr \<Rightarrow> pystr + docx_document"
  read_utf8 :: "pystr \<Rightarrow> pystr + pystr"

definition en_dash :: nat where
  "en_dash = 8211"

definition newline :: nat where
  "newline = 10"

definition cell_sep :: pystr where
  "cell_sep = ascii '' | ''"

definition page_table_label :: "nat \<Rightarrow> pystr" where
  "page_table_label page_num = ascii ''[Page '' @ py_str page_num @ [32, en_dash] @ ascii '' Table]''"

definition page_text_label :: "nat \<Rightarrow> pystr" where
  "page_text_label page_num = ascii ''[Page '' @ py_str page_num @ [32, en_dash] @ ascii '' Text]''"

definition table_label :: "nat \<Rightarrow> pystr" where
  "table_label i = ascii ''[Table '' @ py_str i @ ascii '']''"

definition text_label :: pystr where
  "text_label = ascii ''[Text]''"

definition table_to_text :: "pdf_table \<Rightarrow> pystr" where
  "table_to_text table =
     join [newline]
       (map (\<lambda>row. join cell_sep
                (map (\<lambda>cell. case cell of None \<Rightarrow> []
                                | Some c \<Rightarrow> if c \<noteq> [] then strip c else []) row))
            table)"

text \<open>The stripped, non-empty cells of all tables of a page (the set \<open>table_texts\<close>).\<close>

definition table_texts :: "pdf_table list \<Rightarrow> pystr list" where
  "table_texts tbls =
     concat (map (\<lambda>table. concat (map (\<lambda>row. concat (map (\<lambda>cell.
        case cell of None \<Rightarrow> []
        | Some c \<Rightarrow> if c \<noteq> [] \<and> strip c \<noteq> [] then [strip c] else []) row)) table)) tbls)"

text \<open>The body of the loop over the pages: the sections one page adds.\<close>

definition page_sections :: "nat \<Rightarrow> pdf_page \<Rightarrow> pystr list" where
  "page_sections page_num page =
     (let tbls = extract_tables page;
          table_bboxes = (if tbls \<noteq> [] then find_tables page else []);
          table_part =
            (if tbls \<noteq> []
             then concat (map (\<lambda>table.
                    let t = table_to_text table
                    in if strip t \<noteq> [] then [page_table_label page_num @ [newline] @ t] else [])
                  tbls)
             else []);
          text_part =
            (if table_bboxes \<noteq> []
             then
               (let full_text = (case extract_text page of None \<Rightarrow> [] | Some t \<Rightarrow> t);
                    remaining_text_parts =
                      concat (map (\<lambda>line.
                        let stripped = strip line
                        in if stripped \<noteq> [] \<and> stripped \<notin> set (table_texts tbls)
                           then [stripped] else [])
                      (py_split full_text [newline]))
                in if remaining_text_parts \<noteq> []
                   then [page_text_label page_num @ [newline] @ join [newline] remaining_text_parts]
                   else [])
             else
               (case extract_text page of
                  None \<Rightarrow> []
                | Some t \<Rightarrow>
                    if t \<noteq> [] \<and> strip t \<noteq> []
                    then [page_text_label page_num @ [newline] @ strip t] else []))
      in table_part @ text_part)"

fun pdf_pages :: "nat \<Rightarrow> pdf_page list \<Rightarrow> pystr list" where
  "pdf_pages page_num [] = []"
| "pdf_pages page_num (page # rest) = page_sections page_num page @ pdf_pages (Suc page_num) rest"

definition parse_pdf :: "readers \<Rightarrow> pystr \<Rightarrow> exn + pystr list" where
  "parse_pdf rd path =
     (case library (pdfplumber_open rd path) of
        Inl e \<Rightarrow> Inl e
      | Inr pages \<Rightarrow> Inr (pdf_pages 1 pages))"

fun docx_tables :: "nat \<Rightarrow> pystr list list list \<Rightarrow> pystr list" where
  "docx_tables i [] = []"
| "docx_tables i (table # rest) =
     (let t = join [newline] (map (\<lambda>row. join cell_sep (map strip row)) table)
      in (if strip t \<noteq> [] then [table_label i @ [newline] @ t] else [])
         @ docx_tables (Suc i) rest)"

text \<open>The loop over the paragraphs, with its variable \<open>current_block\<close>; the first
  equation is the code after the loop.\<close>

fun docx_paragraphs :: "pystr list \<Rightarrow> pystr list \<Rightarrow> pystr list" where
  "docx_paragraphs current_block [] =
     (if current_block \<noteq> [] then [text_label @ [newline] @ join [newline] current_block]
      else [])"
| "docx_paragraphs current_block (para # rest) =
     (let t = strip para
      in if t \<noteq> [] then docx_paragraphs (current_block @ [t]) rest
         else if current_block \<noteq> []
         then (text_label @ [newline] @ join [newline] current_block) # docx_paragraphs [] rest
         else docx_paragraphs current_block rest)"

definition docx_sections :: "docx_document \<Rightarrow> pystr list" where
  "docx_sections doc = docx_tables 1 (tables doc) @ docx_paragraphs [] (paragraphs doc)"

definition parse_docx :: "readers \<Rightarrow> pystr \<Rightarrow> exn + pystr list" where
  "parse_docx rd path =
     (case library (docx_Document rd path) of
        Inl e \<Rightarrow> Inl e
      | Inr doc \<Rightarrow> Inr (docx_sections doc))"

definition txt_sections :: "pystr \<Rightarrow> pystr list" where
  "txt_sections content =
     concat (map (\<lambda>block.
        let stripped = strip block
        in if stripped \<noteq> [] then [text_label @ [newline] @ stripped] else [])
      (py_split content [newline, newline]))"

definition parse_txt :: "readers \<Rightarrow> pystr \<Rightarrow> exn + pystr list" where
  "parse_txt rd path =
     (case library (read_utf8 rd path) of
        Inl e \<Rightarrow> Inl e
      | Inr content \<Rightarrow> Inr (txt_sections content))"

text \<open>The error of \<open>parse_document\<close>, which the specification calls UnsupportedFileType.\<close>

definition UnsupportedFileType :: "pystr \<Rightarrow> exn" where
  "UnsupportedFileType ext = ValueError (ascii ''Unsupported file type: .'' @ ext)"

definition parse_document :: "readers \<Rightarrow> pystr \<Rightarrow> exn + pystr list" where
  "parse_document rd path =
     (let ext = lower (last (rsplit1 path 46))
      in if ext = ascii ''pdf'' then parse_pdf rd path
         else if ext = ascii ''docx'' then parse_docx rd path
         else if ext = ascii ''txt'' then parse_txt rd path
         else Inl (UnsupportedFileType ext))"

text \<open>
  The extension in the words of the specification: the part of the path after its last
  dot (the whole path when it holds no dot), in lower case.
\<close>

definition extension :: "pystr \<Rightarrow> pystr" where
  "extension path = lower (rev (takeWhile (\<lambda>c. c \<noteq> 46) (rev path)))"

text \<open>
  A Python \<open>float\<close> is written as the rational number it stands for. \<open>round(x, n)\<close>
  rounds to \<open>n\<close> decimal places, a tie going to the even neighbour.
\<close>

definition round_half_even :: "rat \<Rightarrow> int" where
  "round_half_even x =
     (let f = \<lfloor>x\<rfloor>; d = x - of_int f
      in if d < 1 / 2 then f else if 1 / 2 < d then f + 1 else if even f then f else f + 1)"

definition py_round :: "rat \<Rightarrow> nat \<Rightarrow> rat" where
  "py_round x ndigits = of_int (round_half_even (x * 10 ^ ndigits)) / 10 ^ ndigits"

text \<open>
  The arithmetic of floats rounds: \<open>binary64 x\<close> is the double nearest to \<open>x\<close>, a tie
  going to the even mantissa, for magnitudes in the range of the normal doubles (the values
  computed here are scores, their sums and their means). The loop \<open>scale\<close> doubles or
  halves the magnitude until it lies between \<open>2 ^ 52\<close> and \<open>2 ^ 53\<close> and counts the
  exponent; its first argument bounds the number of steps.
\<close>

fun scale :: "nat \<Rightarrow> rat \<Rightarrow> int \<Rightarrow> rat \<times> int" where
  "scale 0 y e = (y, e)"
| "scale (Suc n) y e =
     (if y < 2 ^ 52 then scale n (2 * y) (e - 1)
      else if 2 ^ 53 \<le> y then scale n (y / 2) (e + 1)
      else (y, e))"

definition pow2 :: "int \<Rightarrow> rat" where
  "pow2 e = (if 0 \<le> e then 2 ^ nat e else 1 / 2 ^ nat (- e))"

definition binary64 :: "rat \<Rightarrow> rat" where
  "binary64 x =
     (if x = 0 then 0
      else case scale 2200 \<bar>x\<bar> 0 of (y, e) \<Rightarrow> sgn x * of_int (round_half_even y) * pow2 e)"

text \<open>
  \<open>sum(xs)\<close> over floats, adding from the left as CPython does up to version 3.11 (from
  the integer 0, to which the first float is added exactly), and \<open>x / y\<close>. A float that
  \<open>round(_, 4)\<close> returned is written in the model as the decimal it was rounded to, so
  it is turned into the double it stands for before it is added.
\<close>

definition sum_binary64 :: "rat list \<Rightarrow> rat" where
  "sum_binary64 xs = foldl (\<lambda>acc x. binary64 (acc + binary64 x)) 0 xs"

definition div_binary64 :: "rat \<Rightarrow> rat \<Rightarrow> rat" where
  "div_binary64 x y = binary64 (binary64 x / binary64 y)"

text \<open>\<open>max\<close> over a sequence whose first element is given apart (Python raises on an
  empty one, and the source asks for the maximum of a non-empty list only).\<close>

fun py_max :: "rat \<Rightarrow> rat list \<Rightarrow> rat" where
  "py_max m [] = m"
| "py_max m (x # xs) = py_max (if m < x then x else m) xs"

text \<open>
  A dictionary with string keys keeps its keys in the order they were first set:
  \<open>d[k] = v\<close> and \<open>d.get(k)\<close>.
\<close>

fun dict_set :: "pystr \<Rightarrow> 'v \<Rightarrow> (pystr \<times> 'v) list \<Rightarrow> (pystr \<times> 'v) list" where
  "dict_set k v [] = [(k, v)]"
| "dict_set k v (p # ps) = (if fst p = k then (k, v) # ps else p # dict_set k v ps)"

definition dict_get :: "(pystr \<times> 'v) list \<Rightarrow> pystr \<Rightarrow> 'v option" where
  "dict_get d k = map_of d k"

section \<open>The libraries\<close>

text \<open>The values a metadata dictionary of the index holds here: strings and integers.\<close>

datatype mval = MStr pystr | MInt int

type_synonym metadata_dict = "(pystr \<times> mval) list"

record document =
  page_content :: pystr
  metadata :: metadata_dict

text \<open>The values \<open>json.loads\<close> returns.\<close>

datatype json =
    JNull
  | JBool bool
  | JInt int
  | JFloat rat
  | JStr pystr
  | JList "json list"
  | JDict "(pystr \<times> json) list"

text \<open>
  What a call of \<open>json.loads\<close> does: it returns a value, or raises \<open>JSONDecodeError\<close>,
  or raises another exception, named by the string (it raises \<open>RecursionError\<close> on a
  text that nests too deeply).
\<close>

datatype loads_result =
    Parsed json
  | JSONDecodeError
  | OtherError pystr

text \<open>
  The libraries are parameters of the model. \<open>'db\<close> is the state of the persistent
  Chroma client. Each operation returns a value or the message of the exception it raises.
  \<^item> \<open>split_documents\<close>: the configured \<open>RecursiveCharacterTextSplitter\<close>; the
    documents it returns are values, each with a metadata dictionary of its own (the
    splitter copies the dictionary of the document a chunk comes from);
  \<^item> \<open>Chroma_from_documents documents collection_name\<close>: embeds and stores;
  \<^item> \<open>Chroma collection_name\<close>: the constructor called by \<open>_get_vectorstore\<close>,
    which may write to the client's state;
  \<^item> \<open>similarity_search_with_score collection_name query k\<close>: documents with
    their distances;
  \<^item> \<open>get collection_name\<close>: the lists \<open>documents\<close> and \<open>metadatas\<close>;
  \<^item> \<open>ask_chain context full_text question\<close> and \<open>extract_chain full_text\<close>: the
    two chains prompt, model, output parser, as functions of the variables they are
    invoked with;
  \<^item> \<open>json_loads\<close>: the call of \<open>json.loads\<close>;
  \<^item> \<open>float_sum\<close> and \<open>float_div\<close>: \<open>sum\<close> over a list of floats and the
    division of floats, whose results depend on the rounding of binary floating point
    (and, for \<open>sum\<close>, on the version of the interpreter).
\<close>

record 'db lib =
  split_documents :: "document list \<Rightarrow> document list"
  Chroma_from_documents :: "document list \<Rightarrow> pystr \<Rightarrow> 'db \<Rightarrow> (pystr + unit) \<times> 'db"
  Chroma :: "pystr \<Rightarrow> 'db \<Rightarrow> (pystr + unit) \<times> 'db"
  similarity_search_with_score :: "pystr \<Rightarrow> pystr \<Rightarrow> nat \<Rightarrow> 'db \<Rightarrow> pystr + (document \<times> rat) list"
  get :: "pystr \<Rightarrow> 'db \<Rightarrow> pystr + (pystr list \<times> metadata_dict list)"
  ask_chain :: "pystr \<Rightarrow> pystr \<Rightarrow> pystr \<Rightarrow> pystr + pystr"
  extract_chain :: "pystr \<Rightarrow> pystr + pystr"
  json_loads :: "pystr \<Rightarrow> loads_result"
  float_sum :: "rat list \<Rightarrow> rat"
  float_div :: "rat \<Rightarrow> rat \<Rightarrow> rat"

text \<open>
  The state a request runs in: the state of the index, and the calls made so far that
  hand data to a provider (documents to the index, variables to a chain), oldest first.
\<close>

datatype call =
    FromDocuments pystr "document list"
  | AskChain pystr pystr pystr
  | ExtractChain pystr

record 'db world =
  store :: 'db
  calls :: "call list"

section \<open>services/rag.py\<close>

definition collection_name :: "pystr \<Rightarrow> pystr" where
  "collection_name doc_id = ascii ''doc_'' @ doc_id"

definition chunk_index_key :: pystr where
  "chunk_index_key = ascii ''chunk_index''"

definition get_vectorstore :: "'db lib \<Rightarrow> pystr \<Rightarrow> 'db world \<Rightarrow> (exn + pystr) \<times> 'db world" where
  "get_vectorstore L doc_id w =
     (case Chroma L (collection_name doc_id) (store w) of
        (Inl msg, db) \<Rightarrow> (Inl (LibraryError msg), w\<lparr>store := db\<rparr>)
      | (Inr u, db) \<Rightarrow> (Inr (collection_name doc_id), w\<lparr>store := db\<rparr>))"

text \<open>The loop of \<open>store_chunks\<close> that updates the metadata of every split document.\<close>

definition update_metadata :: "pystr \<Rightarrow> pystr \<Rightarrow> document list \<Rightarrow> document list" where
  "update_metadata doc_id filename split_docs =
     map (\<lambda>(i, doc). doc\<lparr>metadata :=
            dict_set chunk_index_key (MInt (int i))
              (dict_set (ascii ''filename'') (MStr filename)
                (dict_set (ascii ''doc_id'') (MStr doc_id) (metadata doc)))\<rparr>)
         (enumerate 0 split_docs)"

text \<open>\<open>uuid_hex\<close> is the value of \<open>uuid.uuid4().hex\<close> of this call.\<close>

definition store_chunks ::
  "'db lib \<Rightarrow> pystr \<Rightarrow> pystr list \<Rightarrow> pystr \<Rightarrow> 'db world \<Rightarrow> (exn + pystr \<times> nat) \<times> 'db world" where
  "store_chunks L uuid_hex sections filename w =
     (let doc_id = take 12 uuid_hex;
          docs = map (\<lambda>s. \<lparr>page_content = s, metadata = [(ascii ''source'', MStr filename)]\<rparr>) sections;
          split_docs = update_metadata doc_id filename (split_documents L docs);
          w1 = w\<lparr>calls := calls w @ [FromDocuments (collection_name doc_id) split_docs]\<rparr>
      in case Chroma_from_documents L split_docs (collection_name doc_id) (store w1) of
           (Inl msg, db) \<Rightarrow> (Inl (LibraryError msg), w1\<lparr>store := db\<rparr>)
         | (Inr u, db) \<Rightarrow> (Inr (doc_id, length split_docs), w1\<lparr>store := db\<rparr>))"

text \<open>The dictionaries \<open>retrieve\<close> returns.\<close>

record chunk =
  chunk_text :: pystr
  score :: rat
  chunk_index :: mval

definition retrieve ::
  "'db lib \<Rightarrow> pystr \<Rightarrow> pystr \<Rightarrow> nat \<Rightarrow> 'db world \<Rightarrow> (exn + chunk list) \<times> 'db world" where
  "retrieve L doc_id query top_k w =
     (case get_vectorstore L doc_id w of
        (Inl e, w1) \<Rightarrow> (Inl e, w1)
      | (Inr vectorstore, w1) \<Rightarrow>
          (case library (similarity_search_with_score L vectorstore query top_k (store w1)) of
             Inl e \<Rightarrow> (Inl e, w1)
           | Inr results \<Rightarrow>
               (Inr (map (\<lambda>(doc, distance).
                      let similarity = 1 - distance
                      in \<lparr>chunk_text = page_content doc,
                          score = py_round similarity 4,
                          chunk_index = (case dict_get (metadata doc) chunk_index_key of
                                           None \<Rightarrow> MInt 0 | Some v \<Rightarrow> v)\<rparr>) results), w1)))"

text \<open>
  \<open>paired.sort(key=lambda x: x[1]["chunk_index"])\<close>. The keys are computed first, a missing
  one raising \<open>KeyError\<close>. The sort is stable. Integers are compared as numbers and strings
  by their code points; comparing an integer with a string raises \<open>TypeError\<close>, which a
  sort of keys of both kinds cannot avoid.
\<close>

fun sort_keys :: "(pystr \<times> metadata_dict) list \<Rightarrow> exn + mval list" where
  "sort_keys [] = Inr []"
| "sort_keys (x # xs) =
     (case dict_get (snd x) chunk_index_key of
        None \<Rightarrow> Inl (KeyError chunk_index_key)
      | Some k \<Rightarrow> (case sort_keys xs of Inl e \<Rightarrow> Inl e | Inr ks \<Rightarrow> Inr (k # ks)))"

definition int_key :: "mval \<Rightarrow> int" where
  "int_key k = (case k of MInt i \<Rightarrow> i | MStr s \<Rightarrow> 0)"

definition str_key :: "mval \<Rightarrow> pystr" where
  "str_key k = (case k of MStr s \<Rightarrow> s | MInt i \<Rightarrow> [])"

definition is_int :: "mval \<Rightarrow> bool" where
  "is_int k = (case k of MInt i \<Rightarrow> True | MStr s \<Rightarrow> False)"

definition sort_by_chunk_index ::
  "(pystr \<times> metadata_dict) list \<Rightarrow> exn + (pystr \<times> metadata_dict) list" where
  "sort_by_chunk_index paired =
     (case sort_keys paired of
        Inl e \<Rightarrow> Inl e
      | Inr ks \<Rightarrow>
          if list_all is_int ks
          then Inr (map snd (sort_key (\<lambda>p. int_key (fst p)) (zip ks paired)))
          else if list_all (\<lambda>k. \<not> is_int k) ks
          then Inr (map snd (sort_key (\<lambda>p. str_key (fst p)) (zip ks paired)))
          else Inl TypeError)"

definition get_full_text :: "'db lib \<Rightarrow> pystr \<Rightarrow> 'db world \<Rightarrow> (exn + pystr) \<times> 'db world" where
  "get_full_text L doc_id w =
     (case get_vectorstore L doc_id w of
        (Inl e, w1) \<Rightarrow> (Inl e, w1)
      | (Inr vectorstore, w1) \<Rightarrow>
          (case library (get L vectorstore (store w1)) of
             Inl e \<Rightarrow> (Inl e, w1)
           | Inr (documents, metadatas) \<Rightarrow>
               (case sort_by_chunk_index (zip documents metadatas) of
                  Inl e \<Rightarrow> (Inl e, w1)
                | Inr paired \<Rightarrow> (Inr (join [newline, newline] (map fst paired)), w1))))"

section \<open>services/llm.py\<close>

text \<open>The dictionary \<open>ask_question\<close> returns.\<close>

record answer_dict =
  answer :: pystr
  source_text :: pystr
  confidence_score :: rat

definition context_sep :: pystr where
  "context_sep = [newline, newline] @ ascii ''---'' @ [newline, newline]"

definition ask_question ::
  "'db lib \<Rightarrow> pystr \<Rightarrow> chunk list \<Rightarrow> pystr \<Rightarrow> 'db world \<Rightarrow> (exn + answer_dict) \<times> 'db world" where
  "ask_question L query retrieved_chunks full_text w =
     (let chunk_texts = map chunk_text retrieved_chunks;
          context_block = join context_sep chunk_texts;
          w1 = w\<lparr>calls := calls w @ [AskChain context_block full_text query]\<rparr>
      in case library (ask_chain L context_block full_text query) of
           Inl e \<Rightarrow> (Inl e, w1)
         | Inr out \<Rightarrow>
             (let scores = map score retrieved_chunks;
                  confidence = (if scores \<noteq> []
                                then py_round (float_div L (float_sum L scores)
                                                 (of_nat (length scores))) 4
                                else 0);
                  source = (case chunk_texts of [] \<Rightarrow> [] | t # ts \<Rightarrow> t)
              in (Inr \<lparr>answer = strip out, source_text = source, confidence_score = confidence\<rparr>,
                  w1)))"

text \<open>The fence marker: three grave accents (code point 96).\<close>

definition fence :: pystr where
  "fence = [96, 96, 96]"

text \<open>The text handed to \<open>json.loads\<close>: the stripped output of the chain, without its
  fence lines when it starts with a fence.\<close>

definition unfence :: "pystr \<Rightarrow> pystr" where
  "unfence raw =
     (if startswith raw fence
      then join [newline] (filter (\<lambda>l. \<not> startswith (strip l) fence) (py_split raw [newline]))
      else raw)"

definition parse_failure :: "pystr \<Rightarrow> json" where
  "parse_failure raw =
     JDict [(ascii ''raw_response'', JStr raw),
            (ascii ''error'', JStr (ascii ''Failed to parse LLM JSON output''))]"

definition extract_structured :: "'db lib \<Rightarrow> pystr \<Rightarrow> 'db world \<Rightarrow> (exn + json) \<times> 'db world" where
  "extract_structured L full_text w =
     (let w1 = w\<lparr>calls := calls w @ [ExtractChain full_text]\<rparr>
      in case library (extract_chain L full_text) of
           Inl e \<Rightarrow> (Inl e, w1)
         | Inr out \<Rightarrow>
             (let raw = unfence (strip out)
              in case json_loads L raw of
                   Parsed v \<Rightarrow> (Inr v, w1)
                 | JSONDecodeError \<Rightarrow> (Inr (parse_failure raw), w1)
                 | OtherError name \<Rightarrow> (Inl (LibraryError name), w1)))"

section \<open>routers/documents.py\<close>

record AskResponse =
  response_answer :: pystr
  response_source_text :: "pystr option"
  response_confidence_score :: rat

definition SIMILARITY_THRESHOLD :: rat where
  "SIMILARITY_THRESHOLD = 3 / 10"

text \<open>The error the routes answer an unknown document with (status 404), which the
  specification calls DocumentNotFound.\<close>

definition DocumentNotFound :: "pystr \<Rightarrow> exn" where
  "DocumentNotFound doc_id =
     HTTPException 404 (ascii ''Document '' @ [39] @ doc_id @ [39] @ ascii '' not found'')"

definition not_found_answer :: pystr where
  "not_found_answer = ascii ''Not found in document.''"

definition best_score_of :: "chunk list \<Rightarrow> rat" where
  "best_score_of chunks = (case chunks of [] \<Rightarrow> 0 | c # cs \<Rightarrow> py_max (score c) (map score cs))"

definition ask :: "'db lib \<Rightarrow> pystr \<Rightarrow> pystr \<Rightarrow> 'db world \<Rightarrow> (exn + AskResponse) \<times> 'db world" where
  "ask L doc_id question w =
     (case retrieve L doc_id question 3 w of
        (Inl e, w1) \<Rightarrow> (Inl (DocumentNotFound doc_id), w1)
      | (Inr chunks, w1) \<Rightarrow>
          (let best_score = best_score_of chunks
           in if best_score < SIMILARITY_THRESHOLD
              then (Inr \<lparr>response_answer = not_found_answer,
                         response_source_text = None,
                         response_confidence_score = py_round best_score 4\<rparr>, w1)
              else
                (case get_full_text L doc_id w1 of
                   (Inl e, w2) \<Rightarrow> (Inl e, w2)
                 | (Inr full_text, w2) \<Rightarrow>
                     (case ask_question L question chunks full_text w2 of
                        (Inl e, w3) \<Rightarrow> (Inl e, w3)
                      | (Inr result, w3) \<Rightarrow>
                          (Inr \<lparr>response_answer = answer result,
                                response_source_text = Some (source_text result),
                                response_confidence_score = confidence_score result\<rparr>, w3)))))"

text \<open>The route \<open>extract\<close> (the name is a keyword of Isabelle).\<close>

definition extract_route :: "'db lib \<Rightarrow> pystr \<Rightarrow> 'db world \<Rightarrow> (exn + json) \<times> 'db world" where
  "extract_route L doc_id w =
     (case get_full_text L doc_id w of
        (Inl e, w1) \<Rightarrow> (Inl (DocumentNotFound doc_id), w1)
      | (Inr full_text, w1) \<Rightarrow> extract_structured L full_text w1)"

section \<open>An index that behaves as Chroma does\<close>

text \<open>
  The state of the client is the map from the names of its collections to the documents
  they hold. The constructor \<open>Chroma(collection_name=...)\<close> of langchain_chroma, called
  as the source calls it, opens the collection of that name and creates it, empty, when
  there is none (the client's \<open>get_or_create_collection\<close>); \<open>from_documents\<close> adds the documents to the collection of the name;
  a search returns the \<open>k\<close> documents nearest to the query under a distance
  \<open>distance query content\<close>; \<open>get\<close> returns all documents of the collection. None of them
  raises. The chains and the JSON parser stay parameters; floats are added and divided
  as \<open>sum_binary64\<close> and \<open>div_binary64\<close> do.
\<close>

type_synonym collections = "pystr \<Rightarrow> document list option"

definition open_collection :: "pystr \<Rightarrow> collections \<Rightarrow> collections" where
  "open_collection name db = (case db name of None \<Rightarrow> db(name \<mapsto> []) | Some docs \<Rightarrow> db)"

definition collection_docs :: "pystr \<Rightarrow> collections \<Rightarrow> document list" where
  "collection_docs name db = (case db name of None \<Rightarrow> [] | Some docs \<Rightarrow> docs)"

definition chroma_lib ::
  "(document list \<Rightarrow> document list) \<Rightarrow> (pystr \<Rightarrow> pystr \<Rightarrow> rat) \<Rightarrow>
   (pystr \<Rightarrow> pystr \<Rightarrow> pystr \<Rightarrow> pystr + pystr) \<Rightarrow> (pystr \<Rightarrow> pystr + pystr) \<Rightarrow>
   (pystr \<Rightarrow> loads_result) \<Rightarrow> collections lib" where
  "chroma_lib splitter distance chain_a chain_e loads =
     \<lparr>split_documents = splitter,
      Chroma_from_documents = (\<lambda>docs name db. (Inr (), db(name \<mapsto> collection_docs name db @ docs))),
      Chroma = (\<lambda>name db. (Inr (), open_collection name db)),
      similarity_search_with_score = (\<lambda>name query k db.
        Inr (take k (sort_key snd
          (map (\<lambda>doc. (doc, distance query (page_content doc))) (collection_docs name db))))),
      get = (\<lambda>name db.
        Inr (map page_content (collection_docs name db), map metadata (collection_docs name db))),
      ask_chain = chain_a,
      extract_chain = chain_e,
      json_loads = loads,
      float_sum = sum_binary64,
      float_div = div_binary64\<rparr>"

text \<open>The state before any upload: no collection, no call made.\<close>

definition fresh :: "collections world" where
  "fresh = \<lparr>store = Map.empty, calls = []\<rparr>"

section \<open>Notions of the specification\<close>

text \<open>A section carries a label: it starts with the label and a line break, and more
  text follows.\<close>

definition has_label :: "pystr \<Rightarrow> pystr \<Rightarrow> bool" where
  "has_label label s \<longleftrightarrow>
     startswith s (label @ [newline]) \<and> length (label @ [newline]) < length s"

text \<open>A response wrapped in a code fence: an opening fence line, which may name a
  language, the response, and a closing fence line. \<open>blank\<close> says that a text is white
  space only, as the text before and after the fences may be.\<close>

definition fenced :: "pystr \<Rightarrow> pystr \<Rightarrow> pystr" where
  "fenced lang r = fence @ lang @ [newline] @ r @ [newline] @ fence"

definition blank :: "pystr \<Rightarrow> bool" where
  "blank s \<longleftrightarrow> list_all isspace s"

text \<open>The mean of a list of floats as the program computes it: \<open>sum(xs) / len(xs)\<close>.\<close>

definition float_mean :: "'db lib \<Rightarrow> rat list \<Rightarrow> rat" where
  "float_mean L xs = float_div L (float_sum L xs) (of_nat (length xs))"

text \<open>The chunk index a stored pair of text and metadata carries.\<close>

definition index_of :: "pystr \<times> metadata_dict \<Rightarrow> int" where
  "index_of p = (case dict_get (snd p) chunk_index_key of Some (MInt i) \<Rightarrow> i | _ \<Rightarrow> 0)"

text \<open>The best score of the chunks \<open>retrieve\<close> returned, 0 when there is none; and the
  same over what the index returned, each similarity \<open>1 - distance\<close> rounded to four
  places as \<open>retrieve\<close> reports it.\<close>

definition max_score :: "chunk list \<Rightarrow> rat" where
  "max_score chunks = (if chunks = [] then 0 else Max (set (map score chunks)))"

definition rounded_max :: "(document \<times> rat) list \<Rightarrow> rat" where
  "rounded_max results =
     (if results = [] then 0
      else Max (set (map (\<lambda>r. py_round (1 - snd r) 4) results)))"

section \<open>An example\<close>

text \<open>An index holding one document of two chunks, stored out of order, every chunk at
  distance \<open>d\<close> of every query; a splitter that leaves the sections whole; chains that
  answer with fixed texts; a parser that knows the empty object, raises
  \<open>RecursionError\<close> on the text of 100000 opening brackets, \<open>'[' * 100000\<close>, as
  \<open>json.loads\<close> does, and rejects every other text.\<close>

definition deep_brackets :: pystr where
  "deep_brackets = replicate 100000 91"

definition example_docs :: "document list" where
  "example_docs =
     [\<lparr>page_content = ascii ''b'', metadata = [(chunk_index_key, MInt 1)]\<rparr>,
      \<lparr>page_content = ascii ''a'', metadata = [(chunk_index_key, MInt 0)]\<rparr>]"

definition example_lib :: "rat \<Rightarrow> collections lib" where
  "example_lib d =
     chroma_lib (\<lambda>docs. docs) (\<lambda>query content. d)
       (\<lambda>context full_text question. Inr (ascii '' 42 ''))
       (\<lambda>full_text. Inr (ascii ''{}''))
       (\<lambda>s. if strip s = ascii ''{}'' then Parsed (JDict [])
            else if strip s = deep_brackets then OtherError (ascii ''RecursionError'')
            else JSONDecodeError)"

text \<open>The same index and chains with the chunk \<open>a\<close> at distance \<open>da\<close> and the chunk
  \<open>b\<close> at distance \<open>db\<close> of every query.\<close>

definition ranked_lib :: "rat \<Rightarrow> rat \<Rightarrow> collections lib" where
  "ranked_lib da db =
     chroma_lib (\<lambda>docs. docs) (\<lambda>query content. if content = ascii ''a'' then da else db)
       (\<lambda>context full_text question. Inr (ascii '' 42 ''))
       (\<lambda>full_text. Inr (ascii ''{}''))
       (\<lambda>s. JSONDecodeError)"

definition example_world :: "collections world" where
  "example_world = \<lparr>store = [collection_name (ascii ''abc'') \<mapsto> example_docs], calls = []\<rparr>"

section \<open>Evaluating the model\<close>

lemmas str_defs =
  ascii_def strip_def lstrip_def rstrip_def isspace_def startswith_def py_split_def
  newline_def en_dash_def lower_def

lemmas label_defs =
  page_table_label_def page_text_label_def table_label_def text_label_def cell_sep_def
  has_label_def

lemma py_str_digit: "n < 10 \<Longrightarrow> py_str n = [48 + n]"
  by (simp add: py_str.simps)

lemma round_half_even_near: "\<bar>x - of_int k\<bar> < 1 / 2 \<Longrightarrow> round_half_even x = k"
proof -
  assume a: "\<bar>x - of_int k\<bar> < 1 / 2"
  show ?thesis
  proof (cases "of_int k \<le> x")
    case True
    with a have "\<lfloor>x\<rfloor> = k" by (intro floor_unique) linarith+
    with a True show ?thesis by (simp add: round_half_even_def Let_def)
  next
    case False
    with a have "of_int k - 1 \<le> x" "x < of_int k" by linarith+
    then have f: "\<lfloor>x\<rfloor> = k - 1" by (intro floor_unique) simp_all
    from a False have "1 / 2 < x - (of_int k - 1)" by linarith
    then have "1 / 2 < x - of_int (k - 1)" by simp
    with f show ?thesis by (simp add: round_half_even_def Let_def)
  qed
qed

lemma py_round_near: "\<bar>x * 10 ^ n - of_int k\<bar> < 1 / 2 \<Longrightarrow> py_round x n = of_int k / 10 ^ n"
  by (simp add: py_round_def round_half_even_near)

lemma py_round_int: "py_round (of_int k / 10 ^ n) n = of_int k / 10 ^ n"
  using py_round_near [of "of_int k / 10 ^ n" n k] by simp

lemma py_round_idem: "py_round (py_round x n) n = py_round x n"
  unfolding py_round_def [of x] by (rule py_round_int)

text \<open>Rounding to four places gives the nearest number of four places, the even one
  of the two when they are equally near.\<close>

lemma round_half_even_nearest:
  "\<bar>of_int (round_half_even x) - x\<bar> < 1 / 2 \<or>
   \<bar>of_int (round_half_even x) - x\<bar> = 1 / 2 \<and> even (round_half_even x)"
proof -
  define f where "f = \<lfloor>x\<rfloor>"
  define d where "d = x - of_int f"
  have d: "0 \<le> d" "d < 1"
    unfolding d_def f_def by linarith+
  have x: "x = of_int f + d" by (simp add: d_def)
  have r: "round_half_even x =
             (if d < 1 / 2 then f else if 1 / 2 < d then f + 1 else if even f then f else f + 1)"
    by (simp add: round_half_even_def Let_def d_def f_def)
  consider "d < 1 / 2" | "1 / 2 < d" | "d = 1 / 2" "even f" | "d = 1 / 2" "odd f"
    by fastforce
  then show ?thesis
  proof cases
    case 1
    with d x r show ?thesis by simp
  next
    case 2
    with d x r show ?thesis by simp
  next
    case 3
    with x r show ?thesis by simp
  next
    case 4
    with x r show ?thesis by simp
  qed
qed

lemma py_round_nearest:
  "\<exists>k. py_round x 4 = of_int k / 10000 \<and>
       (\<bar>py_round x 4 - x\<bar> < 1 / 20000 \<or> \<bar>py_round x 4 - x\<bar> = 1 / 20000 \<and> even k)"
proof -
  define k where "k = round_half_even (x * 10 ^ 4)"
  have p: "py_round x 4 = of_int k / 10000"
    by (simp add: py_round_def k_def)
  have e: "\<bar>py_round x 4 - x\<bar> = \<bar>of_int k - x * 10 ^ 4\<bar> / 10000"
    unfolding p by (simp add: field_simps)
  from round_half_even_nearest [of "x * 10 ^ 4"]
  have "\<bar>of_int k - x * 10 ^ 4\<bar> < 1 / 2 \<or> \<bar>of_int k - x * 10 ^ 4\<bar> = 1 / 2 \<and> even k"
    by (simp only: k_def)
  then have "\<bar>py_round x 4 - x\<bar> < 1 / 20000 \<or> \<bar>py_round x 4 - x\<bar> = 1 / 20000 \<and> even k"
    unfolding e by auto
  with p show ?thesis by blast
qed

text \<open>The double nearest to a number, from the mantissa that certifies it.\<close>

lemma scale_up:
  "0 < y \<Longrightarrow> 2 ^ 52 \<le> y * 2 ^ k \<Longrightarrow> y * 2 ^ k < 2 ^ 53 \<Longrightarrow> k \<le> n
     \<Longrightarrow> scale n y e = (y * 2 ^ k, e - int k)"
proof (induction k arbitrary: n y e)
  case 0
  then show ?case by (cases n) simp_all
next
  case (Suc k)
  from Suc.prems(4) obtain n' where n: "n = Suc n'" and k: "k \<le> n'"
    by (cases n) simp_all
  have "(1 :: rat) \<le> 2 ^ k" by simp
  with Suc.prems(1) have "y * 2 \<le> y * 2 * 2 ^ k"
    by (simp add: mult_le_cancel_left1)
  with Suc.prems(3) have y: "y < 2 ^ 52" by simp
  have "scale n' (2 * y) (e - 1) = (2 * y * 2 ^ k, e - 1 - int k)"
    using Suc.prems(1,2,3) k by (intro Suc.IH) (simp_all add: mult.assoc mult.left_commute)
  with y show ?case by (simp add: n mult.assoc mult.left_commute)
qed

lemma binary64_near:
  assumes "0 < x" and "2 ^ 52 \<le> x * 2 ^ k" and "x * 2 ^ k < 2 ^ 53" and "k \<le> 2200"
      and "\<bar>x * 2 ^ k - of_int m\<bar> < 1 / 2"
  shows "binary64 x = of_int m / 2 ^ k"
proof -
  have s: "scale 2200 x 0 = (x * 2 ^ k, - int k)"
    using scale_up [of x k 2200 0] assms(1-4) by simp
  have p: "pow2 (- int k) = 1 / 2 ^ k"
    by (simp add: pow2_def)
  from assms(1) show ?thesis
    by (simp add: binary64_def s p round_half_even_near [OF assms(5)])
qed

lemma binary64_2: "binary64 2 = 2"
  using binary64_near [of 2 51 4503599627370496] by simp

lemma float_mean_pair:
  assumes "binary64 a = A" and "binary64 b = B" and "binary64 A = A"
      and "binary64 (A + B) = S" and "binary64 S = S" and "binary64 (S / 2) = R"
  shows "float_mean (chroma_lib sp dst ca ce jl) [a, b] = R"
  by (simp add: float_mean_def chroma_lib_def sum_binary64_def div_binary64_def assms binary64_2)

section \<open>The parser\<close>

subsection \<open>The extension of a path\<close>

lemma rsplit1_from_last:
  "last (rsplit1_from sep rs acc) = rev (takeWhile (\<lambda>c. c \<noteq> sep) rs) @ acc"
  by (induction rs arbitrary: acc) auto

lemma last_rsplit1: "last (rsplit1 path sep) = rev (takeWhile (\<lambda>c. c \<noteq> sep) (rev path))"
  by (simp add: rsplit1_def rsplit1_from_last)

lemma parse_document_ext:
  "parse_document rd path =
     (let ext = extension path
      in if ext = ascii ''pdf'' then parse_pdf rd path
         else if ext = ascii ''docx'' then parse_docx rd path
         else if ext = ascii ''txt'' then parse_txt rd path
         else Inl (UnsupportedFileType ext))"
  by (simp add: parse_document_def extension_def last_rsplit1)

lemma library_not_ValueError:
  "(case library r of Inl e \<Rightarrow> Inl e | Inr v \<Rightarrow> Inr (f v)) \<noteq> Inl (ValueError m)"
  by (cases r) simp_all

lemma parsers_not_unsupported:
  "parse_pdf rd path \<noteq> Inl (UnsupportedFileType e)"
  "parse_docx rd path \<noteq> Inl (UnsupportedFileType e)"
  "parse_txt rd path \<noteq> Inl (UnsupportedFileType e)"
  by (simp_all add: parse_pdf_def parse_docx_def parse_txt_def UnsupportedFileType_def
      library_not_ValueError)

lemma ascii_neq:
  "ascii ''pdf'' \<noteq> ascii ''docx''" "ascii ''pdf'' \<noteq> ascii ''txt''"
  "ascii ''docx'' \<noteq> ascii ''txt''" "ascii ''docx'' \<noteq> ascii ''pdf''"
  "ascii ''txt'' \<noteq> ascii ''pdf''" "ascii ''txt'' \<noteq> ascii ''docx''"
  by (simp_all add: ascii_def)

text \<open>
  Claim C9. A path whose extension (what follows its last dot, in lower case; the whole
  path when it has no dot, as \<open>rsplit\<close> then returns it whole) is none of \<open>pdf\<close>,
  \<open>docx\<close>, \<open>txt\<close> makes \<open>parse_document\<close> raise the unsupported-file-type error.
  With one of the three extensions \<open>parse_document\<close> is the parser of that extension and
  does not raise that error.
\<close>

theorem parse_document_dispatch:
  "(extension path \<notin> {ascii ''pdf'', ascii ''docx'', ascii ''txt''} \<longrightarrow>
      parse_document rd path = Inl (UnsupportedFileType (extension path))) \<and>
   (extension path = ascii ''pdf'' \<longrightarrow>
      parse_document rd path = parse_pdf rd path \<and>
      (\<forall>e. parse_document rd path \<noteq> Inl (UnsupportedFileType e))) \<and>
   (extension path = ascii ''docx'' \<longrightarrow>
      parse_document rd path = parse_docx rd path \<and>
      (\<forall>e. parse_document rd path \<noteq> Inl (UnsupportedFileType e))) \<and>
   (extension path = ascii ''txt'' \<longrightarrow>
      parse_document rd path = parse_txt rd path \<and>
      (\<forall>e. parse_document rd path \<noteq> Inl (UnsupportedFileType e)))"
  by (simp add: parse_document_ext Let_def ascii_neq parsers_not_unsupported)

theorem parse_document_dispatch_witness:
  "extension (ascii ''notes.md'') \<notin> {ascii ''pdf'', ascii ''docx'', ascii ''txt''} \<and>
   parse_document \<lparr>pdfplumber_open = (\<lambda>p. Inr []), docx_Document = (\<lambda>p. Inl []),
                   read_utf8 = (\<lambda>p. Inr [])\<rparr> (ascii ''notes.md'')
     = Inl (UnsupportedFileType (ascii ''md'')) \<and>
   extension (ascii ''v1.2/Scan.PDF'') = ascii ''pdf'' \<and>
   parse_document \<lparr>pdfplumber_open = (\<lambda>p. Inr []), docx_Document = (\<lambda>p. Inl []),
                   read_utf8 = (\<lambda>p. Inr [])\<rparr> (ascii ''v1.2/Scan.PDF'') = Inr [] \<and>
   extension (ascii ''bol.docx'') = ascii ''docx'' \<and>
   parse_document \<lparr>pdfplumber_open = (\<lambda>p. Inr []), docx_Document = (\<lambda>p. Inl []),
                   read_utf8 = (\<lambda>p. Inr [])\<rparr> (ascii ''bol.docx'') = Inl (LibraryError []) \<and>
   extension (ascii ''rate.Txt'') = ascii ''txt'' \<and>
   parse_document \<lparr>pdfplumber_open = (\<lambda>p. Inr []), docx_Document = (\<lambda>p. Inl []),
                   read_utf8 = (\<lambda>p. Inr [])\<rparr> (ascii ''rate.Txt'') = Inr []"
proof -
  let ?rd = "\<lparr>pdfplumber_open = (\<lambda>p. Inr []), docx_Document = (\<lambda>p. Inl []),
              read_utf8 = (\<lambda>p. Inr [])\<rparr>"
  have a: "extension (ascii ''notes.md'') \<notin> {ascii ''pdf'', ascii ''docx'', ascii ''txt''}"
    and a': "extension (ascii ''notes.md'') = ascii ''md''"
    and b: "extension (ascii ''v1.2/Scan.PDF'') = ascii ''pdf''"
    and c: "extension (ascii ''bol.docx'') = ascii ''docx''"
    and d: "extension (ascii ''rate.Txt'') = ascii ''txt''"
    by (simp_all add: extension_def str_defs)
  have "parse_document ?rd (ascii ''notes.md'') = Inl (UnsupportedFileType (ascii ''md''))"
    using parse_document_dispatch [of "ascii ''notes.md''" ?rd] a a' by simp
  moreover have "parse_document ?rd (ascii ''v1.2/Scan.PDF'') = Inr []"
    using parse_document_dispatch [of "ascii ''v1.2/Scan.PDF''" ?rd] b
    by (simp add: parse_pdf_def)
  moreover have "parse_document ?rd (ascii ''bol.docx'') = Inl (LibraryError [])"
    using parse_document_dispatch [of "ascii ''bol.docx''" ?rd] c
    by (simp add: parse_docx_def)
  moreover have "parse_document ?rd (ascii ''rate.Txt'') = Inr []"
    using parse_document_dispatch [of "ascii ''rate.Txt''" ?rd] d
    by (simp add: parse_txt_def txt_sections_def str_defs)
  ultimately show ?thesis using a b c d by blast
qed

subsection \<open>The labels of the sections\<close>

lemma strip_Nil: "strip [] = []"
  by (simp add: strip_def lstrip_def rstrip_def)

lemma strip_nonempty: "strip t \<noteq> [] \<Longrightarrow> t \<noteq> []"
  using strip_Nil by auto

lemma has_label_append: "content \<noteq> [] \<Longrightarrow> has_label label (label @ newline # content)"
  by (simp add: has_label_def startswith_def)

lemma join_nonempty: "xs \<noteq> [] \<Longrightarrow> hd xs \<noteq> [] \<Longrightarrow> join sep xs \<noteq> []"
  by (induction sep xs rule: join.induct) auto

lemma join_nonempty_all: "xs \<noteq> [] \<Longrightarrow> \<forall>x\<in>set xs. x \<noteq> [] \<Longrightarrow> join sep xs \<noteq> []"
  by (rule join_nonempty) auto

lemma in_singletons:
  "s \<in> set (concat (map (\<lambda>x. if P x then [f x] else []) xs)) \<longleftrightarrow> (\<exists>x\<in>set xs. P x \<and> s = f x)"
  by auto

lemma page_sections_labelled:
  assumes "s \<in> set (page_sections n page)"
  shows "has_label (page_table_label n) s \<or> has_label (page_text_label n) s"
proof -
  define tbls where "tbls = extract_tables page"
  define table_part where "table_part =
     concat (map (\<lambda>table. if strip (table_to_text table) \<noteq> []
        then [page_table_label n @ newline # table_to_text table] else []) tbls)"
  define remaining where "remaining =
     concat (map (\<lambda>line. if strip line \<noteq> [] \<and> strip line \<notin> set (table_texts tbls)
        then [strip line] else [])
      (py_split (case extract_text page of None \<Rightarrow> [] | Some t \<Rightarrow> t) [newline]))"
  define text_part where "text_part =
     (if tbls \<noteq> [] \<and> find_tables page \<noteq> []
      then (if remaining \<noteq> [] then [page_text_label n @ newline # join [newline] remaining] else [])
      else (case extract_text page of None \<Rightarrow> []
            | Some t \<Rightarrow> if t \<noteq> [] \<and> strip t \<noteq> [] then [page_text_label n @ newline # strip t] else []))"
  have eq: "page_sections n page = (if tbls \<noteq> [] then table_part else []) @ text_part"
    unfolding page_sections_def Let_def tbls_def table_part_def remaining_def text_part_def
    by (simp cong: if_cong option.case_cong)
  have t: "has_label (page_table_label n) s" if "s \<in> set table_part"
    using that unfolding table_part_def in_singletons
    by (auto simp: has_label_append strip_nonempty)
  have "\<forall>x\<in>set remaining. x \<noteq> []"
    unfolding remaining_def by (auto split: if_splits)
  then have r: "remaining \<noteq> [] \<Longrightarrow> join [newline] remaining \<noteq> []"
    by (simp add: join_nonempty_all)
  have x: "has_label (page_text_label n) s" if "s \<in> set text_part"
    using that r unfolding text_part_def
    by (auto simp: has_label_append split: if_splits option.splits)
  from assms show ?thesis
    unfolding eq using t x by (auto split: if_splits)
qed

lemma pdf_pages_labelled:
  "s \<in> set (pdf_pages n pages) \<Longrightarrow>
   \<exists>k. n \<le> k \<and> k < n + length pages \<and> (has_label (page_table_label k) s \<or> has_label (page_text_label k) s)"
proof (induction pages arbitrary: n)
  case Nil
  then show ?case by simp
next
  case (Cons page rest)
  from Cons.prems have "s \<in> set (page_sections n page) \<or> s \<in> set (pdf_pages (Suc n) rest)"
    by simp
  then show ?case
  proof
    assume "s \<in> set (page_sections n page)"
    then have "has_label (page_table_label n) s \<or> has_label (page_text_label n) s"
      by (rule page_sections_labelled)
    then show ?thesis by (intro exI[of _ n]) simp
  next
    assume "s \<in> set (pdf_pages (Suc n) rest)"
    from Cons.IH[OF this] obtain k where "Suc n \<le> k" "k < Suc n + length rest"
      "has_label (page_table_label k) s \<or> has_label (page_text_label k) s" by blast
    then show ?thesis by (intro exI[of _ k]) simp
  qed
qed

lemma docx_tables_labelled:
  "s \<in> set (docx_tables i ts) \<Longrightarrow> \<exists>k. i \<le> k \<and> k < i + length ts \<and> has_label (table_label k) s"
proof (induction ts arbitrary: i)
  case Nil
  then show ?case by simp
next
  case (Cons t rest)
  define body where "body = join [newline] (map (\<lambda>row. join cell_sep (map strip row)) t)"
  from Cons.prems have "(strip body \<noteq> [] \<and> s = table_label i @ newline # body) \<or> s \<in> set (docx_tables (Suc i) rest)"
    unfolding body_def by (auto simp: Let_def split: if_splits)
  then show ?case
  proof
    assume "strip body \<noteq> [] \<and> s = table_label i @ newline # body"
    then have "has_label (table_label i) s" by (simp add: has_label_append strip_nonempty)
    then show ?thesis by (intro exI[of _ i]) simp
  next
    assume "s \<in> set (docx_tables (Suc i) rest)"
    from Cons.IH[OF this] obtain k where "Suc i \<le> k" "k < Suc i + length rest" "has_label (table_label k) s" by blast
    then show ?thesis by (intro exI[of _ k]) simp
  qed
qed

lemma docx_paragraphs_labelled:
  "\<forall>x\<in>set cur. x \<noteq> [] \<Longrightarrow> s \<in> set (docx_paragraphs cur ps) \<Longrightarrow> has_label text_label s"
proof (induction ps arbitrary: cur)
  case Nil
  then show ?case by (auto simp: has_label_append join_nonempty_all split: if_splits)
next
  case (Cons p rest)
  show ?case
  proof (cases "strip p \<noteq> []")
    case True
    with Cons.prems have "s \<in> set (docx_paragraphs (cur @ [strip p]) rest)" by (simp add: Let_def)
    moreover from True Cons.prems have "\<forall>x\<in>set (cur @ [strip p]). x \<noteq> []" by auto
    ultimately show ?thesis using Cons.IH by blast
  next
    case False
    show ?thesis
    proof (cases "cur \<noteq> []")
      case True
      with False Cons.prems have "s = text_label @ newline # join [newline] cur \<or> s \<in> set (docx_paragraphs [] rest)"
        by (auto simp: Let_def)
      then show ?thesis
      proof
        assume "s = text_label @ newline # join [newline] cur"
        with True Cons.prems show ?thesis by (simp add: has_label_append join_nonempty_all)
      next
        assume "s \<in> set (docx_paragraphs [] rest)"
        then show ?thesis using Cons.IH[of "[]"] by simp
      qed
    next
      case c: False
      with False Cons.prems have "s \<in> set (docx_paragraphs [] rest)" by (simp add: Let_def)
      then show ?thesis using Cons.IH[of "[]"] by simp
    qed
  qed
qed

lemma txt_sections_labelled: "s \<in> set (txt_sections content) \<Longrightarrow> has_label text_label s"
  unfolding txt_sections_def Let_def in_singletons
  by (auto simp: has_label_append)

text \<open>
  Claim C10. Every section that \<open>parse_pdf\<close>, \<open>parse_docx\<close> or \<open>parse_txt\<close> returns
  starts with a label in brackets (of a page's table or text, of a table of the document,
  or the plain text label) and a line break, and text follows the line break; so the section
  is not empty, and the label is part of the section string itself.
\<close>

theorem sections_carry_label:
  "(parse_pdf rd path = Inr secs \<longrightarrow>
      (\<forall>s\<in>set secs. \<exists>k. 1 \<le> k \<and> (has_label (page_table_label k) s \<or> has_label (page_text_label k) s))) \<and>
   (parse_docx rd path = Inr secs \<longrightarrow>
      (\<forall>s\<in>set secs. has_label text_label s \<or> (\<exists>i. 1 \<le> i \<and> has_label (table_label i) s))) \<and>
   (parse_txt rd path = Inr secs \<longrightarrow> (\<forall>s\<in>set secs. has_label text_label s))"
proof (intro conjI impI ballI)
  fix s assume "parse_pdf rd path = Inr secs" "s \<in> set secs"
  then obtain pages where "s \<in> set (pdf_pages 1 pages)"
    by (cases "pdfplumber_open rd path") (auto simp: parse_pdf_def)
  from pdf_pages_labelled[OF this]
  show "\<exists>k. 1 \<le> k \<and> (has_label (page_table_label k) s \<or> has_label (page_text_label k) s)"
    by blast
next
  fix s assume "parse_docx rd path = Inr secs" "s \<in> set secs"
  then obtain doc where "s \<in> set (docx_sections doc)"
    by (cases "docx_Document rd path") (auto simp: parse_docx_def)
  then have "s \<in> set (docx_tables 1 (tables doc)) \<or> s \<in> set (docx_paragraphs [] (paragraphs doc))"
    by (simp add: docx_sections_def)
  then show "has_label text_label s \<or> (\<exists>i. 1 \<le> i \<and> has_label (table_label i) s)"
  proof
    assume "s \<in> set (docx_tables 1 (tables doc))"
    from docx_tables_labelled[OF this] show ?thesis by blast
  next
    assume "s \<in> set (docx_paragraphs [] (paragraphs doc))"
    then have "has_label text_label s" using docx_paragraphs_labelled[of "[]"] by simp
    then show ?thesis ..
  qed
next
  fix s assume "parse_txt rd path = Inr secs" "s \<in> set secs"
  then obtain content where "s \<in> set (txt_sections content)"
    by (cases "read_utf8 rd path") (auto simp: parse_txt_def)
  then show "has_label text_label s" by (rule txt_sections_labelled)
qed

theorem sections_carry_label_witness:
  "parse_pdf \<lparr>pdfplumber_open = (\<lambda>p. Inr [\<lparr>extract_tables = [[[Some (ascii ''Rate''), None]]],
                                         find_tables = [(0, 0, 1, 1)],
                                         extract_text = Some (ascii ''Rate\<newline> Load 7 '')\<rparr>]),
              docx_Document = (\<lambda>p. Inl []), read_utf8 = (\<lambda>p. Inl [])\<rparr> []
     = Inr [page_table_label 1 @ [newline] @ ascii ''Rate | '',
            page_text_label 1 @ [newline] @ ascii ''Load 7''] \<and>
   (\<exists>k. 1 \<le> k \<and> (has_label (page_table_label k) (page_table_label 1 @ [newline] @ ascii ''Rate | '') \<or>
                  has_label (page_text_label k) (page_table_label 1 @ [newline] @ ascii ''Rate | ''))) \<and>
   parse_docx \<lparr>pdfplumber_open = (\<lambda>p. Inl []),
               docx_Document = (\<lambda>p. Inr \<lparr>tables = [[[ascii '' a '', ascii ''b'']]],
                                         paragraphs = [ascii ''p'', [], ascii ''q '']\<rparr>),
               read_utf8 = (\<lambda>p. Inl [])\<rparr> []
     = Inr [table_label 1 @ [newline] @ ascii ''a | b'', text_label @ [newline] @ ascii ''p'',
            text_label @ [newline] @ ascii ''q''] \<and>
   (has_label text_label (text_label @ [newline] @ ascii ''q'') \<or>
    (\<exists>i. 1 \<le> i \<and> has_label (table_label i) (text_label @ [newline] @ ascii ''q''))) \<and>
   parse_txt \<lparr>pdfplumber_open = (\<lambda>p. Inl []), docx_Document = (\<lambda>p. Inl []),
              read_utf8 = (\<lambda>p. Inr (ascii ''one\<newline>\<newline>  \<newline>\<newline> two''))\<rparr> []
     = Inr [text_label @ [newline] @ ascii ''one'', text_label @ [newline] @ ascii ''two''] \<and>
   has_label text_label (text_label @ [newline] @ ascii ''two'')"
proof -
  let ?P = "\<lparr>pdfplumber_open = (\<lambda>p. Inr [\<lparr>extract_tables = [[[Some (ascii ''Rate''), None]]],
                                         find_tables = [(0, 0, 1, 1)],
                                         extract_text = Some (ascii ''Rate\<newline> Load 7 '')\<rparr>]),
              docx_Document = (\<lambda>p. Inl []), read_utf8 = (\<lambda>p. Inl [])\<rparr>"
  let ?D = "\<lparr>pdfplumber_open = (\<lambda>p. Inl []),
               docx_Document = (\<lambda>p. Inr \<lparr>tables = [[[ascii '' a '', ascii ''b'']]],
                                         paragraphs = [ascii ''p'', [], ascii ''q '']\<rparr>),
               read_utf8 = (\<lambda>p. Inl [])\<rparr>"
  let ?T = "\<lparr>pdfplumber_open = (\<lambda>p. Inl []), docx_Document = (\<lambda>p. Inl []),
              read_utf8 = (\<lambda>p. Inr (ascii ''one\<newline>\<newline>  \<newline>\<newline> two''))\<rparr>"
  have p: "parse_pdf ?P [] = Inr [page_table_label 1 @ [newline] @ ascii ''Rate | '',
            page_text_label 1 @ [newline] @ ascii ''Load 7'']"
    by (simp add: parse_pdf_def page_sections_def table_to_text_def table_texts_def Let_def
        str_defs label_defs py_str_digit)
  have d: "parse_docx ?D [] = Inr [table_label 1 @ [newline] @ ascii ''a | b'',
            text_label @ [newline] @ ascii ''p'', text_label @ [newline] @ ascii ''q'']"
    by (simp add: parse_docx_def docx_sections_def Let_def str_defs label_defs py_str_digit)
  have t: "parse_txt ?T [] = Inr [text_label @ [newline] @ ascii ''one'',
            text_label @ [newline] @ ascii ''two'']"
    by (simp add: parse_txt_def txt_sections_def str_defs label_defs)
  note p d t
  moreover from sections_carry_label [of ?P "[]" "[page_table_label 1 @ [newline] @ ascii ''Rate | '',
            page_text_label 1 @ [newline] @ ascii ''Load 7'']"] p
  have "\<exists>k. 1 \<le> k \<and> (has_label (page_table_label k) (page_table_label 1 @ [newline] @ ascii ''Rate | '') \<or>
                  has_label (page_text_label k) (page_table_label 1 @ [newline] @ ascii ''Rate | ''))"
    by simp
  moreover from sections_carry_label [of ?D "[]" "[table_label 1 @ [newline] @ ascii ''a | b'',
            text_label @ [newline] @ ascii ''p'', text_label @ [newline] @ ascii ''q'']"] d
  have "has_label text_label (text_label @ [newline] @ ascii ''q'') \<or>
    (\<exists>i. 1 \<le> i \<and> has_label (table_label i) (text_label @ [newline] @ ascii ''q''))"
    by simp
  moreover from sections_carry_label [of ?T "[]" "[text_label @ [newline] @ ascii ''one'',
            text_label @ [newline] @ ascii ''two'']"] t
  have "has_label text_label (text_label @ [newline] @ ascii ''two'')"
    by simp
  ultimately show ?thesis by blast
qed

section \<open>The index\<close>

subsection \<open>Chunk indices\<close>

lemma dict_get_set: "dict_get (dict_set k v d) k = Some v"
  by (induction d) (auto simp: dict_get_def)

lemma map_enumerate:
  "map (\<lambda>(i, x). f i x) (enumerate n xs) = map (\<lambda>i. f i (xs ! (i - n))) [n..<n + length xs]"
  by (induction xs arbitrary: n) (auto simp: upt_conv_Cons simp del: upt_Suc)

lemma update_metadata_length: "length (update_metadata doc_id filename docs) = length docs"
  by (simp add: update_metadata_def)

lemma update_metadata_index:
  "map (\<lambda>d. dict_get (metadata d) chunk_index_key) (update_metadata doc_id filename docs)
     = map (\<lambda>i. Some (MInt (int i))) [0..<length docs]"
  by (simp add: update_metadata_def map_enumerate dict_get_set)

lemma update_metadata_content:
  "map page_content (update_metadata doc_id filename docs) = map page_content docs"
proof -
  have "map page_content (update_metadata doc_id filename docs)
          = map (\<lambda>i. page_content (docs ! i)) [0..<length docs]"
    by (simp add: update_metadata_def map_enumerate)
  also have "\<dots> = map page_content (map (\<lambda>i. docs ! i) [0..<length docs])"
    by simp
  also have "\<dots> = map page_content docs"
    by (simp only: map_nth)
  finally show ?thesis .
qed

text \<open>
  Claim C7. When \<open>store_chunks\<close> returns a count \<open>n\<close>, the documents it handed to the
  index are \<open>n\<close> in number and carry the chunk indices 0, 1, ..., \<open>n - 1\<close> in this order,
  which is the order in which the splitter produced them, whatever section a chunk comes
  from.
\<close>

theorem store_chunks_indices:
  assumes "fst (store_chunks L uuid_hex sections filename w) = Inr (doc_id, n)"
  shows "\<exists>docs. calls (snd (store_chunks L uuid_hex sections filename w))
                  = calls w @ [FromDocuments (collection_name doc_id) docs] \<and>
               length docs = n \<and>
               map (\<lambda>d. dict_get (metadata d) chunk_index_key) docs
                  = map (\<lambda>i. Some (MInt (int i))) [0..<n] \<and>
               map page_content docs
                  = map page_content (split_documents L
                      (map (\<lambda>s. \<lparr>page_content = s, metadata = [(ascii ''source'', MStr filename)]\<rparr>)
                           sections))"
proof -
  define split_docs where "split_docs = split_documents L
     (map (\<lambda>s. \<lparr>page_content = s, metadata = [(ascii ''source'', MStr filename)]\<rparr>) sections)"
  define docs where "docs = update_metadata (take 12 uuid_hex) filename split_docs"
  define r where "r = Chroma_from_documents L docs (collection_name (take 12 uuid_hex)) (store w)"
  have eq: "store_chunks L uuid_hex sections filename w =
     (case r of
        (Inl msg, db) \<Rightarrow> (Inl (LibraryError msg),
            \<lparr>store = db, calls = calls w @ [FromDocuments (collection_name (take 12 uuid_hex)) docs]\<rparr>)
      | (Inr u, db) \<Rightarrow> (Inr (take 12 uuid_hex, length docs),
            \<lparr>store = db, calls = calls w @ [FromDocuments (collection_name (take 12 uuid_hex)) docs]\<rparr>))"
    unfolding store_chunks_def Let_def r_def docs_def split_docs_def
    by (simp split: prod.splits sum.splits)
  obtain res db where r: "r = (res, db)" by (cases r)
  from assms obtain u where "res = Inr u" and d: "doc_id = take 12 uuid_hex" and n: "n = length docs"
    unfolding eq r by (cases res) auto
  then have "calls (snd (store_chunks L uuid_hex sections filename w))
       = calls w @ [FromDocuments (collection_name doc_id) docs]"
    unfolding eq r by simp
  moreover have "map (\<lambda>d. dict_get (metadata d) chunk_index_key) docs
                  = map (\<lambda>i. Some (MInt (int i))) [0..<n]"
    unfolding n docs_def by (simp add: update_metadata_index update_metadata_length)
  moreover have "map page_content docs = map page_content split_docs"
    unfolding docs_def by (rule update_metadata_content)
  ultimately show ?thesis using n unfolding split_docs_def by blast
qed

subsection \<open>The full text\<close>

lemma insort_key_map:
  "insort_key f (h x) (map h ys) = map h (insort_key (\<lambda>a. f (h a)) x ys)"
  by (induction ys) auto

lemma sort_key_map: "sort_key f (map h xs) = map h (sort_key (\<lambda>a. f (h a)) xs)"
  by (induction xs) (auto simp: insort_key_map)

lemma insort_key_cong_set:
  "f x = g x \<Longrightarrow> \<forall>y\<in>set ys. f y = g y \<Longrightarrow> insort_key f x ys = insort_key g x ys"
  by (induction ys) auto

lemma sort_key_cong_set: "\<forall>x\<in>set xs. f x = g x \<Longrightarrow> sort_key f xs = sort_key g xs"
proof (induction xs)
  case Nil
  then show ?case by simp
next
  case (Cons x xs)
  then have "sort_key f xs = sort_key g xs" by simp
  moreover have "insort_key f x (sort_key g xs) = insort_key g x (sort_key g xs)"
    using Cons.prems by (intro insort_key_cong_set) auto
  ultimately show ?case by simp
qed

lemma sort_keys_Inr:
  "sort_keys paired = Inr ks \<Longrightarrow>
     ks = map (\<lambda>p. the (dict_get (snd p) chunk_index_key)) paired"
  by (induction paired arbitrary: ks) (auto split: option.splits sum.splits)

lemma sort_keys_all:
  "\<forall>p\<in>set paired. \<exists>i. dict_get (snd p) chunk_index_key = Some (MInt i) \<Longrightarrow>
     \<exists>ks. sort_keys paired = Inr ks \<and> list_all is_int ks"
  by (induction paired) (auto simp: is_int_def)

lemma sort_by_chunk_index_ints:
  assumes "\<forall>p\<in>set paired. \<exists>i. dict_get (snd p) chunk_index_key = Some (MInt i)"
  shows "sort_by_chunk_index paired = Inr (sort_key index_of paired)"
proof -
  from sort_keys_all[OF assms] obtain ks where ks: "sort_keys paired = Inr ks" "list_all is_int ks"
    by blast
  let ?g = "\<lambda>p. the (dict_get (snd p) chunk_index_key)"
  have k: "ks = map ?g paired" using ks(1) by (rule sort_keys_Inr)
  have z: "zip ks paired = map (\<lambda>p. (?g p, p)) paired"
    unfolding k by (induction paired) auto
  have "map snd (sort_key (\<lambda>p. int_key (fst p)) (zip ks paired))
          = map snd (map (\<lambda>p. (?g p, p)) (sort_key (\<lambda>p. int_key (fst (?g p, p))) paired))"
    unfolding z by (simp only: sort_key_map)
  also have "\<dots> = sort_key (\<lambda>p. int_key (?g p)) paired"
    by (simp add: comp_def)
  also have "\<dots> = sort_key index_of paired"
  proof -
    have "\<forall>p\<in>set paired. int_key (?g p) = index_of p"
      using assms by (auto simp: int_key_def index_of_def)
    then show ?thesis by (rule sort_key_cong_set)
  qed
  finally show ?thesis using ks by (simp add: sort_by_chunk_index_def)
qed

lemma get_full_text_eq:
  assumes "Chroma L (collection_name doc_id) (store w) = (Inr u, db)"
      and "get L (collection_name doc_id) db = Inr (documents, metadatas)"
  shows "get_full_text L doc_id w =
           (case sort_by_chunk_index (zip documents metadatas) of
              Inl e \<Rightarrow> (Inl e, w\<lparr>store := db\<rparr>)
            | Inr paired \<Rightarrow> (Inr (join [newline, newline] (map fst paired)), w\<lparr>store := db\<rparr>))"
  using assms by (simp add: get_full_text_def get_vectorstore_def)

text \<open>
  Claim C8. For a stored document (the collection opens, the index returns its texts and
  metadata, and every chunk index is an integer, as \<open>store_chunks\<close> writes it),
  \<open>get_full_text\<close> returns the texts in ascending order of their chunk index, joined by
  two line breaks: the pairs are sorted, none is lost or added. When opening the
  collection wrote nothing, a second call returns what the first returned.
\<close>

theorem get_full_text_sorted:
  assumes "Chroma L (collection_name doc_id) (store w) = (Inr (), db)"
      and "get L (collection_name doc_id) db = Inr (documents, metadatas)"
      and "\<forall>p\<in>set (zip documents metadatas). \<exists>i. dict_get (snd p) chunk_index_key = Some (MInt i)"
  shows "get_full_text L doc_id w =
           (Inr (join [newline, newline] (map fst (sort_key index_of (zip documents metadatas)))),
            w\<lparr>store := db\<rparr>) \<and>
         sorted (map index_of (sort_key index_of (zip documents metadatas))) \<and>
         mset (sort_key index_of (zip documents metadatas)) = mset (zip documents metadatas) \<and>
         (db = store w \<longrightarrow>
            get_full_text L doc_id (snd (get_full_text L doc_id w)) = get_full_text L doc_id w)"
proof -
  have g: "get_full_text L doc_id w =
           (Inr (join [newline, newline] (map fst (sort_key index_of (zip documents metadatas)))),
            w\<lparr>store := db\<rparr>)"
    using get_full_text_eq [OF assms(1,2)] sort_by_chunk_index_ints [OF assms(3)] by simp
  moreover have "get_full_text L doc_id (snd (get_full_text L doc_id w)) = get_full_text L doc_id w"
    if "db = store w"
  proof -
    from that have "snd (get_full_text L doc_id w) = w" unfolding g by simp
    then show ?thesis by simp
  qed
  ultimately show ?thesis by simp
qed

section \<open>Answering\<close>

lemma py_max_Max: "py_max m xs = Max (set (m # xs))"
proof (induction xs arbitrary: m)
  case Nil
  then show ?case by simp
next
  case (Cons x xs)
  have "(if m < x then x else m) = max m x"
    by (simp add: max_def)
  then have "py_max m (x # xs) = Max (set (max m x # xs))"
    using Cons.IH [of "max m x"] by simp
  also have "\<dots> = Max (set (m # x # xs))"
    by (cases "xs = []") (simp_all add: max.assoc)
  finally show ?case .
qed

lemma best_score_max: "best_score_of chunks = max_score chunks"
  by (cases chunks) (simp_all add: best_score_of_def max_score_def py_max_Max)

lemma retrieve_calls: "retrieve L doc_id query k w = (r, w1) \<Longrightarrow> calls w1 = calls w"
  by (auto simp: retrieve_def get_vectorstore_def split: prod.splits sum.splits)

lemma retrieve_chain: "retrieve (L\<lparr>ask_chain := c\<rparr>) doc_id query k w = retrieve L doc_id query k w"
  by (simp add: retrieve_def get_vectorstore_def split: prod.splits sum.splits)

text \<open>
  Claim C3. When the best score of the retrieved chunks (0 when there is none) is below
  0.3, \<open>ask\<close> returns the answer "Not found in document.", no source text and the
  rounded best score as confidence. No chain is invoked (the calls are those made before),
  and the result is the same whatever the chain is.
\<close>

theorem ask_below_threshold:
  assumes "retrieve L doc_id question 3 w = (Inr chunks, w1)"
      and "max_score chunks < 3 / 10"
  shows "ask L doc_id question w =
           (Inr \<lparr>response_answer = ascii ''Not found in document.'',
                 response_source_text = None,
                 response_confidence_score = py_round (max_score chunks) 4\<rparr>, w1) \<and>
         calls w1 = calls w \<and>
         (\<forall>chain. ask (L\<lparr>ask_chain := chain\<rparr>) doc_id question w = ask L doc_id question w)"
proof -
  have a: "ask L' doc_id question w =
           (Inr \<lparr>response_answer = ascii ''Not found in document.'',
                 response_source_text = None,
                 response_confidence_score = py_round (max_score chunks) 4\<rparr>, w1)"
    if "retrieve L' doc_id question 3 w = (Inr chunks, w1)" for L' :: "'a lib"
    using that assms(2)
    by (simp add: ask_def best_score_max SIMILARITY_THRESHOLD_def not_found_answer_def)
  have "ask (L\<lparr>ask_chain := chain\<rparr>) doc_id question w = ask L doc_id question w" for chain
    using a [of L] a [of "L\<lparr>ask_chain := chain\<rparr>"] assms(1) by (simp add: retrieve_chain)
  then show ?thesis using a [OF assms(1)] retrieve_calls [OF assms(1)] by simp
qed

lemma ask_short_circuit:
  assumes "retrieve L doc_id question 3 w = (Inr chunks, w1)"
      and "max_score chunks < 3 / 10"
  shows "ask L doc_id question w =
           (Inr \<lparr>response_answer = ascii ''Not found in document.'',
                 response_source_text = None,
                 response_confidence_score = py_round (max_score chunks) 4\<rparr>, w1)"
  using assms
  by (simp add: ask_def best_score_max SIMILARITY_THRESHOLD_def not_found_answer_def)

lemma ask_question_eq:
  "ask_question L query chunks full_text w =
     (case ask_chain L (join context_sep (map chunk_text chunks)) full_text query of
        Inl msg \<Rightarrow> (Inl (LibraryError msg),
                     w\<lparr>calls := calls w @ [AskChain (join context_sep (map chunk_text chunks)) full_text query]\<rparr>)
      | Inr out \<Rightarrow>
          (Inr \<lparr>answer = strip out,
                source_text = (case chunks of [] \<Rightarrow> [] | c # cs \<Rightarrow> chunk_text c),
                confidence_score = (if chunks \<noteq> []
                   then py_round (float_mean L (map score chunks)) 4
                   else 0)\<rparr>,
           w\<lparr>calls := calls w @ [AskChain (join context_sep (map chunk_text chunks)) full_text query]\<rparr>))"
  by (cases chunks; cases "ask_chain L (join context_sep (map chunk_text chunks)) full_text query")
     (simp_all add: ask_question_def Let_def float_mean_def)

lemma ask_llm_path:
  assumes "retrieve L doc_id question 3 w = (Inr chunks, w1)"
      and "3 / 10 \<le> max_score chunks"
  shows "ask L doc_id question w =
           (case get_full_text L doc_id w1 of
              (Inl e, w2) \<Rightarrow> (Inl e, w2)
            | (Inr full_text, w2) \<Rightarrow>
                (case ask_chain L (join context_sep (map chunk_text chunks)) full_text question of
                   Inl msg \<Rightarrow> (Inl (LibraryError msg),
                      w2\<lparr>calls := calls w2 @ [AskChain (join context_sep (map chunk_text chunks)) full_text question]\<rparr>)
                 | Inr out \<Rightarrow>
                     (Inr \<lparr>response_answer = strip out,
                           response_source_text = Some (case chunks of [] \<Rightarrow> [] | c # cs \<Rightarrow> chunk_text c),
                           response_confidence_score = (if chunks \<noteq> []
                             then py_round (float_mean L (map score chunks)) 4
                             else 0)\<rparr>,
                      w2\<lparr>calls := calls w2 @ [AskChain (join context_sep (map chunk_text chunks)) full_text question]\<rparr>)))"
proof -
  from assms(2) have "\<not> best_score_of chunks < SIMILARITY_THRESHOLD"
    by (simp add: best_score_max SIMILARITY_THRESHOLD_def)
  with assms(1) show ?thesis
    by (simp add: ask_def ask_question_eq split: prod.splits sum.splits)
qed

text \<open>The scores \<open>retrieve\<close> reports are numbers of four places, and so the mean of
  at most three of them is no nearer than a third of 0.00005 to a point halfway between
  two numbers of four places, unless it lies on it: a float mean that near to the exact
  mean rounds to a number of four places nearest to the exact mean.\<close>

lemma retrieve_scores:
  "retrieve L doc_id query k w = (Inr chunks, w1)
     \<Longrightarrow> \<forall>c\<in>set chunks. \<exists>j. score c = of_int j / 10000"
  by (auto simp: retrieve_def py_round_def Let_def split: prod.splits sum.splits)

lemma sum_list_places:
  "\<forall>x\<in>set xs. \<exists>j. x = of_int j / 10000 \<Longrightarrow> \<exists>N. sum_list xs = of_int N / (10000 :: rat)"
proof (induction xs)
  case Nil
  have "sum_list [] = of_int 0 / (10000 :: rat)" by simp
  then show ?case by blast
next
  case (Cons x xs)
  then obtain j N where "x = of_int j / 10000" "sum_list xs = of_int N / (10000 :: rat)"
    by auto
  then have "sum_list (x # xs) = of_int (j + N) / (10000 :: rat)"
    by (simp add: add_divide_distrib)
  then show ?case by blast
qed

lemma nearest_fraction:
  fixes k N :: int and m :: rat
  assumes "0 < n" and "n \<le> 3" and "\<bar>of_int k - m\<bar> \<le> 1 / 2"
      and "\<bar>m - of_int N / of_nat n\<bar> < 1 / 6"
  shows "\<bar>of_int k - of_int N / of_nat n\<bar> \<le> (1 / 2 :: rat)"
proof -
  from assms(3,4) have d: "\<bar>of_int k - of_int N / of_nat n\<bar> < (2 / 3 :: rat)"
    by linarith
  from assms(1,2) consider "n = 1" | "n = 2" | "n = 3" by linarith
  then show ?thesis
  proof cases
    case 1
    with d have "\<bar>of_int (k - N)\<bar> < (1 :: rat)" by simp
    then have "\<bar>k - N\<bar> < 1" by (simp only: of_int_abs [symmetric] of_int_less_1_iff)
    then have "k = N" by simp
    with 1 show ?thesis by simp
  next
    case 2
    with d have "\<bar>of_int (2 * k - N)\<bar> < (2 :: rat)" by (simp add: field_simps abs_if split: if_splits)
    then have "\<bar>of_int (2 * k - N)\<bar> < (of_int 2 :: rat)" by simp
    then have "\<bar>2 * k - N\<bar> < 2" by (simp only: of_int_abs [symmetric] of_int_less_iff)
    then have "\<bar>2 * k - N\<bar> \<le> 1" by simp
    then have "\<bar>of_int (2 * k - N)\<bar> \<le> (1 :: rat)"
      by (simp only: of_int_abs [symmetric] of_int_le_1_iff)
    with 2 show ?thesis by (simp add: field_simps abs_if split: if_splits)
  next
    case 3
    with d have "\<bar>of_int (3 * k - N)\<bar> < (2 :: rat)" by (simp add: field_simps abs_if split: if_splits)
    then have "\<bar>of_int (3 * k - N)\<bar> < (of_int 2 :: rat)" by simp
    then have "\<bar>3 * k - N\<bar> < 2" by (simp only: of_int_abs [symmetric] of_int_less_iff)
    then have "\<bar>3 * k - N\<bar> \<le> 1" by simp
    then have "\<bar>of_int (3 * k - N)\<bar> \<le> (1 :: rat)"
      by (simp only: of_int_abs [symmetric] of_int_le_1_iff)
    with 3 show ?thesis by (simp add: field_simps abs_if split: if_splits)
  qed
qed

lemma py_round_mean_nearest:
  assumes "\<forall>x\<in>set xs. \<exists>j. x = of_int j / 10000" and "xs \<noteq> []" and "length xs \<le> 3"
      and "\<bar>m - sum_list xs / of_nat (length xs)\<bar> < 1 / 60000"
  shows "\<bar>py_round m 4 - sum_list xs / of_nat (length xs)\<bar> \<le> 1 / 20000"
proof -
  from sum_list_places [OF assms(1)] obtain N where N: "sum_list xs = of_int N / 10000"
    by blast
  from py_round_nearest [of m] obtain k where k: "py_round m 4 = of_int k / 10000"
    and "\<bar>py_round m 4 - m\<bar> \<le> 1 / 20000" by auto
  then have a: "\<bar>of_int k - m * 10000\<bar> \<le> 1 / 2"
    by (simp add: field_simps abs_if split: if_splits)
  define n where "n = length xs"
  have n: "0 < n" "n \<le> 3" using assms(2,3) by (simp_all add: n_def)
  have e: "m * 10000 - of_int N / of_nat n = 10000 * (m - sum_list xs / of_nat n)"
    by (simp add: N algebra_simps)
  have f: "\<bar>m * 10000 - of_int N / of_nat n\<bar> = 10000 * \<bar>m - sum_list xs / of_nat n\<bar>"
    unfolding e abs_mult by simp
  have "\<bar>m - sum_list xs / of_nat n\<bar> < 1 / 60000"
    using assms(4) by (simp only: n_def)
  then have b: "\<bar>m * 10000 - of_int N / of_nat n\<bar> < 1 / 6"
    unfolding f by simp
  from nearest_fraction [OF n a b]
  have "\<bar>of_int k - of_int N / of_nat n\<bar> \<le> (1 / 2 :: rat)" .
  moreover have "\<bar>py_round m 4 - sum_list xs / of_nat n\<bar>
                   = \<bar>of_int k - of_int N / of_nat n\<bar> / 10000"
    unfolding k N using n(1) by (simp add: field_simps abs_if split: if_splits)
  ultimately show ?thesis unfolding n_def by simp
qed

text \<open>
  Claim C4. When the best score reaches 0.3 and chunks were retrieved, whatever \<open>ask\<close>
  returns has as confidence the mean of the chunks' scores rounded to four places, the
  mean being computed as the floats' \<open>sum(scores) / len(scores)\<close>: the confidence is a
  number of four places nearest to the float mean, the even one of the two when they are
  equally near; and it is a number of four places nearest to the exact mean of the
  scores, for up to three chunks, as \<open>ask\<close> retrieves, and a float mean within a third
  of 0.00005 of the exact one. The source text is the text of the first chunk. And
  \<open>ask\<close> does return, with the stripped output of the chain as answer, when the full
  text is read and the chain answers.
\<close>

theorem ask_above_threshold:
  assumes "retrieve L doc_id question 3 w = (Inr chunks, w1)"
      and "chunks \<noteq> []"
      and "3 / 10 \<le> max_score chunks"
  shows "(\<forall>r w3. ask L doc_id question w = (Inr r, w3) \<longrightarrow>
            response_confidence_score r = py_round (float_mean L (map score chunks)) 4 \<and>
            (\<exists>k. response_confidence_score r = of_int k / 10000 \<and>
                 (\<bar>response_confidence_score r - float_mean L (map score chunks)\<bar> < 1 / 20000 \<or>
                  \<bar>response_confidence_score r - float_mean L (map score chunks)\<bar> = 1 / 20000 \<and>
                  even k)) \<and>
            (length chunks \<le> 3 \<and>
             \<bar>float_mean L (map score chunks)
                - sum_list (map score chunks) / of_nat (length chunks)\<bar> < 1 / 60000 \<longrightarrow>
             \<bar>response_confidence_score r - sum_list (map score chunks) / of_nat (length chunks)\<bar>
               \<le> 1 / 20000) \<and>
            response_source_text r = Some (chunk_text (hd chunks))) \<and>
         (\<forall>full_text w2 out.
            get_full_text L doc_id w1 = (Inr full_text, w2) \<longrightarrow>
            ask_chain L (join context_sep (map chunk_text chunks)) full_text question = Inr out \<longrightarrow>
            (\<exists>r. ask L doc_id question w =
                    (Inr r, w2\<lparr>calls := calls w2 @
                       [AskChain (join context_sep (map chunk_text chunks)) full_text question]\<rparr>) \<and>
                 response_answer r = strip out))"
proof -
  obtain c cs where c: "chunks = c # cs" using assms(2) by (cases chunks) auto
  have a: "\<forall>r w3. ask L doc_id question w = (Inr r, w3) \<longrightarrow>
            response_confidence_score r = py_round (float_mean L (map score chunks)) 4 \<and>
            response_source_text r = Some (chunk_text (hd chunks))"
    unfolding ask_llm_path [OF assms(1,3)] c
    by (auto split: prod.splits sum.splits)
  have b: "\<forall>full_text w2 out.
            get_full_text L doc_id w1 = (Inr full_text, w2) \<longrightarrow>
            ask_chain L (join context_sep (map chunk_text chunks)) full_text question = Inr out \<longrightarrow>
            (\<exists>r. ask L doc_id question w =
                    (Inr r, w2\<lparr>calls := calls w2 @
                       [AskChain (join context_sep (map chunk_text chunks)) full_text question]\<rparr>) \<and>
                 response_answer r = strip out)"
    unfolding ask_llm_path [OF assms(1,3)] c
    by (auto split: prod.splits sum.splits)
  have p: "\<forall>x\<in>set (map score chunks). \<exists>j. x = of_int j / 10000"
    using retrieve_scores [OF assms(1)] by auto
  show ?thesis
  proof (intro conjI allI impI)
    fix r w3
    assume "ask L doc_id question w = (Inr r, w3)"
    with a have conf: "response_confidence_score r = py_round (float_mean L (map score chunks)) 4"
      and src: "response_source_text r = Some (chunk_text (hd chunks))"
      by blast+
    show "response_confidence_score r = py_round (float_mean L (map score chunks)) 4"
      by (rule conf)
    show "\<exists>k. response_confidence_score r = of_int k / 10000 \<and>
            (\<bar>response_confidence_score r - float_mean L (map score chunks)\<bar> < 1 / 20000 \<or>
             \<bar>response_confidence_score r - float_mean L (map score chunks)\<bar> = 1 / 20000 \<and>
             even k)"
      unfolding conf by (rule py_round_nearest)
    show "response_source_text r = Some (chunk_text (hd chunks))"
      by (rule src)
  next
    fix r w3
    assume "ask L doc_id question w = (Inr r, w3)"
      and n: "length chunks \<le> 3 \<and>
              \<bar>float_mean L (map score chunks)
                 - sum_list (map score chunks) / of_nat (length chunks)\<bar> < 1 / 60000"
    with a have conf: "response_confidence_score r = py_round (float_mean L (map score chunks)) 4"
      by blast
    show "\<bar>response_confidence_score r - sum_list (map score chunks) / of_nat (length chunks)\<bar>
            \<le> 1 / 20000"
      unfolding conf
      using py_round_mean_nearest [OF p, of "float_mean L (map score chunks)"] assms(2) n
      by simp
  next
    fix full_text w2 out
    assume "get_full_text L doc_id w1 = (Inr full_text, w2)"
      and "ask_chain L (join context_sep (map chunk_text chunks)) full_text question = Inr out"
    with b show "\<exists>r. ask L doc_id question w =
                    (Inr r, w2\<lparr>calls := calls w2 @
                       [AskChain (join context_sep (map chunk_text chunks)) full_text question]\<rparr>) \<and>
                 response_answer r = strip out"
      by blast
  qed
qed

subsection \<open>Which scores are compared with the threshold\<close>

lemma retrieve_eq:
  assumes "Chroma L (collection_name doc_id) (store w) = (Inr u, db)"
      and "similarity_search_with_score L (collection_name doc_id) query k db = Inr results"
  shows "retrieve L doc_id query k w =
           (Inr (map (\<lambda>r. \<lparr>chunk_text = page_content (fst r),
                              score = py_round (1 - snd r) 4,
                              chunk_index = (case dict_get (metadata (fst r)) chunk_index_key of
                                               None \<Rightarrow> MInt 0 | Some v \<Rightarrow> v)\<rparr>) results),
            w\<lparr>store := db\<rparr>)"
  using assms by (simp add: retrieve_def get_vectorstore_def case_prod_beta Let_def)

lemma max_score_rounded:
  "max_score (map (\<lambda>r. \<lparr>chunk_text = t r, score = py_round (1 - snd r) 4, chunk_index = i r\<rparr>) results)
     = rounded_max results"
  by (simp add: max_score_def rounded_max_def comp_def)

lemma py_round_zero: "py_round 0 n = 0"
  using py_round_int [of 0 n] by simp

lemma Max_prop: "xs \<noteq> [] \<Longrightarrow> \<forall>x\<in>set xs. P x \<Longrightarrow> P (Max (set xs))"
proof -
  assume "xs \<noteq> []" and p: "\<forall>x\<in>set xs. P x"
  then have "Max (set xs) \<in> set xs" by (intro Max_in) simp_all
  with p show ?thesis by blast
qed

lemma rounded_max_round: "py_round (rounded_max results) 4 = rounded_max results"
proof (cases "results = []")
  case True
  then show ?thesis by (simp add: rounded_max_def py_round_zero)
next
  case False
  have "py_round (Max (set (map (\<lambda>r. py_round (1 - snd r) 4) results))) 4
          = Max (set (map (\<lambda>r. py_round (1 - snd r) 4) results))"
    using False by (intro Max_prop) (auto simp: py_round_idem)
  with False show ?thesis by (simp add: rounded_max_def)
qed

text \<open>
  Claim C2, amended. The score compared with the threshold is the best of the scores as
  \<open>retrieve\<close> reports them, each already rounded to four places: below 0.3 \<open>ask\<close>
  answers at once, with that score as confidence; from 0.3 on, and when the full text is
  read, the chain is invoked on the retrieved texts, the full text and the question.
\<close>

theorem ask_threshold_on_rounded:
  assumes "Chroma L (collection_name doc_id) (store w) = (Inr (), db)"
      and "similarity_search_with_score L (collection_name doc_id) question 3 db = Inr results"
  shows "(rounded_max results < 3 / 10 \<longrightarrow>
            ask L doc_id question w =
              (Inr \<lparr>response_answer = ascii ''Not found in document.'',
                    response_source_text = None,
                    response_confidence_score = rounded_max results\<rparr>, w\<lparr>store := db\<rparr>)) \<and>
         (3 / 10 \<le> rounded_max results \<longrightarrow>
            (\<forall>full_text w2. get_full_text L doc_id (w\<lparr>store := db\<rparr>) = (Inr full_text, w2) \<longrightarrow>
               calls (snd (ask L doc_id question w)) =
                 calls w2 @ [AskChain (join context_sep (map (\<lambda>r. page_content (fst r)) results))
                               full_text question]))"
proof (intro conjI impI allI)
  assume "rounded_max results < 3 / 10"
  then show "ask L doc_id question w =
              (Inr \<lparr>response_answer = ascii ''Not found in document.'',
                    response_source_text = None,
                    response_confidence_score = rounded_max results\<rparr>, w\<lparr>store := db\<rparr>)"
    using ask_short_circuit [OF retrieve_eq [OF assms]]
    by (simp add: max_score_rounded rounded_max_round)
next
  fix full_text w2
  assume "3 / 10 \<le> rounded_max results"
    and "get_full_text L doc_id (w\<lparr>store := db\<rparr>) = (Inr full_text, w2)"
  then show "calls (snd (ask L doc_id question w)) =
                 calls w2 @ [AskChain (join context_sep (map (\<lambda>r. page_content (fst r)) results))
                               full_text question]"
    using ask_llm_path [OF retrieve_eq [OF assms]]
    by (simp add: max_score_rounded comp_def split: sum.splits)
qed

section \<open>The example, evaluated\<close>

lemmas example_defs =
  example_lib_def ranked_lib_def chroma_lib_def example_world_def example_docs_def fresh_def
  open_collection_def collection_docs_def

lemma example_round:
  "py_round (7499 / 25000) 4 = 3 / 10" "py_round (3 / 10) 4 = 3 / 10"
  "py_round (1 / 4) 4 = 1 / 4" "py_round (3 / 5) 4 = 3 / 5"
  using py_round_near [of "7499 / 25000" 4 3000] py_round_near [of "3 / 10" 4 3000]
    py_round_near [of "1 / 4" 4 2500] py_round_near [of "3 / 5" 4 6000]
  by simp_all

text \<open>The doubles of the examples: those nearest to 0.3, 0.5002, 0.5001, 0.3438 and
  0.3437, their sums and the halves of the sums.\<close>

lemma example_binary64_1:
  "binary64 (3 / 10) = 5404319552844595 / 18014398509481984"
  using binary64_near [of "3 / 10" 54 5404319552844595] by simp

lemma example_binary64_2:
  "binary64 (5404319552844595 / 18014398509481984) = 5404319552844595 / 18014398509481984"
  using binary64_near [of "5404319552844595 / 18014398509481984" 54 5404319552844595] by simp

lemma example_binary64_3:
  "binary64 (5404319552844595 / 9007199254740992) = 5404319552844595 / 9007199254740992"
  using binary64_near [of "5404319552844595 / 9007199254740992" 53 5404319552844595] by simp

lemma example_binary64_4:
  "binary64 (2501 / 5000) = 1126350266805361 / 2251799813685248"
  using binary64_near [of "2501 / 5000" 53 4505401067221444] by simp

lemma example_binary64_5:
  "binary64 (5001 / 10000) = 2252250173647985 / 4503599627370496"
  using binary64_near [of "5001 / 10000" 53 4504500347295970] by simp

lemma example_binary64_6:
  "binary64 (1126350266805361 / 2251799813685248) = 1126350266805361 / 2251799813685248"
  using binary64_near [of "1126350266805361 / 2251799813685248" 53 4505401067221444] by simp

lemma example_binary64_7:
  "binary64 (2252250173647985 / 4503599627370496) = 2252250173647985 / 4503599627370496"
  using binary64_near [of "2252250173647985 / 4503599627370496" 53 4504500347295970] by simp

lemma example_binary64_8:
  "binary64 (4504950707258707 / 4503599627370496) = 4504950707258707 / 4503599627370496"
  using binary64_near [of "4504950707258707 / 4503599627370496" 52 4504950707258707] by simp

lemma example_binary64_9:
  "binary64 (4504950707258707 / 9007199254740992) = 4504950707258707 / 9007199254740992"
  using binary64_near [of "4504950707258707 / 9007199254740992" 53 4504950707258707] by simp

lemma example_binary64_10:
  "binary64 (1719 / 5000) = 3096675103779953 / 9007199254740992"
  using binary64_near [of "1719 / 5000" 54 6193350207559906] by simp

lemma example_binary64_11:
  "binary64 (3437 / 10000) = 3095774383854479 / 9007199254740992"
  using binary64_near [of "3437 / 10000" 54 6191548767708958] by simp

lemma example_binary64_12:
  "binary64 (3096675103779953 / 9007199254740992) = 3096675103779953 / 9007199254740992"
  using binary64_near [of "3096675103779953 / 9007199254740992" 54 6193350207559906] by simp

lemma example_binary64_13:
  "binary64 (3095774383854479 / 9007199254740992) = 3095774383854479 / 9007199254740992"
  using binary64_near [of "3095774383854479 / 9007199254740992" 54 6191548767708958] by simp

lemma example_binary64_14:
  "binary64 (11 / 16) = 11 / 16"
  using binary64_near [of "11 / 16" 53 6192449487634432] by simp

lemma example_binary64_15:
  "binary64 (11 / 32) = 11 / 32"
  using binary64_near [of "11 / 32" 54 6192449487634432] by simp

lemmas example_binary64 =
  example_binary64_1 example_binary64_2 example_binary64_3 example_binary64_4
  example_binary64_5 example_binary64_6 example_binary64_7 example_binary64_8
  example_binary64_9 example_binary64_10 example_binary64_11 example_binary64_12
  example_binary64_13 example_binary64_14 example_binary64_15

lemma example_means:
  "float_mean (example_lib d) [3 / 10, 3 / 10] = 5404319552844595 / 18014398509481984"
  "float_mean (ranked_lib da db) [2501 / 5000, 5001 / 10000]
     = 4504950707258707 / 9007199254740992"
  "float_mean (ranked_lib da db) [1719 / 5000, 3437 / 10000] = 11 / 32"
proof -
  show "float_mean (example_lib d) [3 / 10, 3 / 10] = 5404319552844595 / 18014398509481984"
    unfolding example_lib_def
    using float_mean_pair
      [where a = "3 / 10" and b = "3 / 10"
         and A = "5404319552844595 / 18014398509481984"
         and B = "5404319552844595 / 18014398509481984"
         and S = "5404319552844595 / 9007199254740992"
         and R = "5404319552844595 / 18014398509481984"]
    by (simp add: example_binary64)
  show "float_mean (ranked_lib da db) [2501 / 5000, 5001 / 10000]
          = 4504950707258707 / 9007199254740992"
    unfolding ranked_lib_def
    using float_mean_pair
      [where a = "2501 / 5000" and b = "5001 / 10000"
         and A = "1126350266805361 / 2251799813685248"
         and B = "2252250173647985 / 4503599627370496"
         and S = "4504950707258707 / 4503599627370496"
         and R = "4504950707258707 / 9007199254740992"]
    by (simp add: example_binary64)
  show "float_mean (ranked_lib da db) [1719 / 5000, 3437 / 10000] = 11 / 32"
    unfolding ranked_lib_def
    using float_mean_pair
      [where a = "1719 / 5000" and b = "3437 / 10000"
         and A = "3096675103779953 / 9007199254740992"
         and B = "3095774383854479 / 9007199254740992"
         and S = "11 / 16" and R = "11 / 32"]
    by (simp add: example_binary64)
qed

lemma example_round_means:
  "py_round (5404319552844595 / 18014398509481984) 4 = 3 / 10"
  "py_round (4504950707258707 / 9007199254740992) 4 = 5001 / 10000"
  "py_round (11 / 32) 4 = 1719 / 5000"
proof -
  show "py_round (5404319552844595 / 18014398509481984) 4 = 3 / 10"
    using py_round_near [of "5404319552844595 / 18014398509481984" 4 3000] by simp
  show "py_round (4504950707258707 / 9007199254740992) 4 = 5001 / 10000"
    using py_round_near [of "4504950707258707 / 9007199254740992" 4 5001] by simp
  have "\<lfloor>6875 / 2 :: rat\<rfloor> = 3437"
    by (rule floor_unique) simp_all
  then show "py_round (11 / 32) 4 = 1719 / 5000"
    by (simp add: py_round_def round_half_even_def Let_def)
qed

lemma example_round_scores:
  "py_round (2501 / 5000) 4 = 2501 / 5000" "py_round (5001 / 10000) 4 = 5001 / 10000"
  "py_round (1719 / 5000) 4 = 1719 / 5000" "py_round (3437 / 10000) 4 = 3437 / 10000"
  using py_round_near [of "2501 / 5000" 4 5002] py_round_near [of "5001 / 10000" 4 5001]
    py_round_near [of "1719 / 5000" 4 3438] py_round_near [of "3437 / 10000" 4 3437]
  by simp_all

lemma example_open:
  "Chroma (example_lib d) (collection_name (ascii ''abc'')) (store example_world)
     = (Inr (), store example_world)"
  by (simp add: example_defs)

lemma example_search:
  "similarity_search_with_score (example_lib d) (collection_name (ascii ''abc'')) q 3
     (store example_world) = Inr [(example_docs ! 0, d), (example_docs ! 1, d)]"
  by (simp add: example_defs)

lemma example_get:
  "get (example_lib d) (collection_name (ascii ''abc'')) (store example_world)
     = Inr ([ascii ''b'', ascii ''a''], [[(chunk_index_key, MInt 1)], [(chunk_index_key, MInt 0)]])"
  by (simp add: example_defs)

lemma example_retrieve:
  "retrieve (example_lib d) (ascii ''abc'') q 3 example_world =
     (Inr [\<lparr>chunk_text = ascii ''b'', score = py_round (1 - d) 4, chunk_index = MInt 1\<rparr>,
           \<lparr>chunk_text = ascii ''a'', score = py_round (1 - d) 4, chunk_index = MInt 0\<rparr>],
      example_world)"
  unfolding retrieve_eq [OF example_open example_search]
  by (simp add: example_docs_def dict_get_def)

lemma example_full_text:
  "get_full_text (example_lib d) (ascii ''abc'') example_world
     = (Inr (ascii ''a'' @ [newline, newline] @ ascii ''b''), example_world)"
  unfolding get_full_text_eq [OF example_open example_get]
  by (simp add: sort_by_chunk_index_def dict_get_def is_int_def int_key_def)

lemma example_chain: "ask_chain (example_lib d) c f q = Inr (ascii '' 42 '')"
  by (simp add: example_defs)

lemma example_calls: "calls example_world = []"
  by (simp add: example_world_def)

lemma strip_42: "strip (ascii '' 42 '') = ascii ''42''"
  by (simp add: str_defs)

lemma ranked_open:
  "Chroma (ranked_lib da db) (collection_name (ascii ''abc'')) (store example_world)
     = (Inr (), store example_world)"
  by (simp add: example_defs)

lemma ranked_search:
  "da < db \<Longrightarrow>
   similarity_search_with_score (ranked_lib da db) (collection_name (ascii ''abc'')) q 3
     (store example_world) = Inr [(example_docs ! 1, da), (example_docs ! 0, db)]"
  by (simp add: example_defs ascii_def)

lemma ranked_get:
  "get (ranked_lib da db) (collection_name (ascii ''abc'')) (store example_world)
     = Inr ([ascii ''b'', ascii ''a''], [[(chunk_index_key, MInt 1)], [(chunk_index_key, MInt 0)]])"
  by (simp add: example_defs)

lemma ranked_retrieve:
  "da < db \<Longrightarrow>
   retrieve (ranked_lib da db) (ascii ''abc'') q 3 example_world =
     (Inr [\<lparr>chunk_text = ascii ''a'', score = py_round (1 - da) 4, chunk_index = MInt 0\<rparr>,
           \<lparr>chunk_text = ascii ''b'', score = py_round (1 - db) 4, chunk_index = MInt 1\<rparr>],
      example_world)"
  unfolding retrieve_eq [OF ranked_open ranked_search]
  by (simp add: example_docs_def dict_get_def)

lemma ranked_full_text:
  "get_full_text (ranked_lib da db) (ascii ''abc'') example_world
     = (Inr (ascii ''a'' @ [newline, newline] @ ascii ''b''), example_world)"
  unfolding get_full_text_eq [OF ranked_open ranked_get]
  by (simp add: sort_by_chunk_index_def dict_get_def is_int_def int_key_def)

lemma ranked_chain: "ask_chain (ranked_lib da db) c f q = Inr (ascii '' 42 '')"
  by (simp add: example_defs)

lemma example_ask:
  assumes "3 / 10 \<le> py_round (1 - d) 4"
  shows "ask (example_lib d) (ascii ''abc'') q example_world =
     (Inr \<lparr>response_answer = ascii ''42'', response_source_text = Some (ascii ''b''),
           response_confidence_score =
             py_round (float_mean (example_lib d) [py_round (1 - d) 4, py_round (1 - d) 4]) 4\<rparr>,
      example_world\<lparr>calls := [AskChain (ascii ''b'' @ context_sep @ ascii ''a'')
                                 (ascii ''a'' @ [newline, newline] @ ascii ''b'') q]\<rparr>)"
proof -
  have m: "3 / 10 \<le> max_score
     [\<lparr>chunk_text = ascii ''b'', score = py_round (1 - d) 4, chunk_index = MInt 1\<rparr>,
      \<lparr>chunk_text = ascii ''a'', score = py_round (1 - d) 4, chunk_index = MInt 0\<rparr>]"
    using assms by (simp add: max_score_def)
  show ?thesis
    unfolding ask_llm_path [OF example_retrieve m] example_full_text
    by (simp add: example_chain example_calls strip_42)
qed

text \<open>
  Claim C2 as stated fails: at distance 0.70004 the similarity 0.29996 is below the
  threshold, yet it is reported as 0.3 and the chain is invoked.
\<close>

theorem threshold_unrounded_counterexample:
  "similarity_search_with_score (example_lib (70004 / 100000)) (collection_name (ascii ''abc''))
     (ascii ''q'') 3 (store example_world)
     = Inr [(example_docs ! 0, 70004 / 100000), (example_docs ! 1, 70004 / 100000)] \<and>
   (1 :: rat) - 70004 / 100000 < SIMILARITY_THRESHOLD \<and>
   ask (example_lib (70004 / 100000)) (ascii ''abc'') (ascii ''q'') example_world =
     (Inr \<lparr>response_answer = ascii ''42'', response_source_text = Some (ascii ''b''),
           response_confidence_score = 3 / 10\<rparr>,
      example_world\<lparr>calls := [AskChain (ascii ''b'' @ context_sep @ ascii ''a'')
                                 (ascii ''a'' @ [newline, newline] @ ascii ''b'') (ascii ''q'')]\<rparr>)"
proof -
  have r: "py_round (1 - 70004 / 100000) 4 = 3 / 10"
    by (simp add: example_round)
  have "(1 :: rat) - 70004 / 100000 < SIMILARITY_THRESHOLD"
    by (simp add: SIMILARITY_THRESHOLD_def)
  moreover have "ask (example_lib (70004 / 100000)) (ascii ''abc'') (ascii ''q'') example_world =
     (Inr \<lparr>response_answer = ascii ''42'', response_source_text = Some (ascii ''b''),
           response_confidence_score = 3 / 10\<rparr>,
      example_world\<lparr>calls := [AskChain (ascii ''b'' @ context_sep @ ascii ''a'')
                                 (ascii ''a'' @ [newline, newline] @ ascii ''b'') (ascii ''q'')]\<rparr>)"
    using example_ask [of "70004 / 100000" "ascii ''q''"] unfolding r
    by (simp add: example_round example_means example_round_means)
  ultimately show ?thesis using example_search [of "70004 / 100000" "ascii ''q''"] by blast
qed

subsection \<open>When the routes answer that the document is not found\<close>

text \<open>The routes raise the not-found error exactly when \<open>retrieve\<close>, for \<open>ask\<close>, or
  \<open>get_full_text\<close>, for \<open>extract\<close>, raises: the source has no other test of the
  identifier.\<close>

lemma sort_by_chunk_index_error:
  "sort_by_chunk_index paired = Inl e \<Longrightarrow> e = KeyError chunk_index_key \<or> e = TypeError"
proof -
  have k: "sort_keys xs = Inl e \<Longrightarrow> e = KeyError chunk_index_key" for xs
    by (induction xs) (auto split: option.splits sum.splits)
  assume "sort_by_chunk_index paired = Inl e"
  then show ?thesis
    using k [of paired]
    by (cases "sort_keys paired") (auto simp: sort_by_chunk_index_def split: if_splits)
qed

lemma get_full_text_error:
  "fst (get_full_text L doc_id w) \<noteq> Inl (HTTPException n m)"
proof -
  have "sort_by_chunk_index paired \<noteq> Inl (HTTPException n m)" for paired
    using sort_by_chunk_index_error [of paired "HTTPException n m"] by auto
  moreover have "library r \<noteq> Inl (HTTPException n m)" for r :: "pystr + pystr list \<times> metadata_dict list"
    by (cases r) simp_all
  ultimately show ?thesis
    by (auto simp: get_full_text_def get_vectorstore_def
        split: prod.splits sum.splits)
qed

lemma ask_not_found_iff:
  "fst (ask L doc_id question w) = Inl (DocumentNotFound doc_id)
     \<longleftrightarrow> (\<exists>e. fst (retrieve L doc_id question 3 w) = Inl e)"
proof (cases "retrieve L doc_id question 3 w")
  case (Pair r w1)
  show ?thesis
  proof (cases r)
    case (Inl e)
    with Pair show ?thesis by (simp add: ask_def)
  next
    case (Inr chunks)
    have "fst (ask L doc_id question w) \<noteq> Inl (HTTPException n m)" for n m
    proof (cases "max_score chunks < 3 / 10")
      case True
      then show ?thesis
        using Pair Inr by (simp add: ask_def best_score_max SIMILARITY_THRESHOLD_def)
    next
      case False
      then have "3 / 10 \<le> max_score chunks" by simp
      moreover from Pair Inr have "retrieve L doc_id question 3 w = (Inr chunks, w1)" by simp
      ultimately show ?thesis
        using get_full_text_error [of L doc_id w1 n m]
        by (auto simp: ask_llm_path split: prod.splits sum.splits)
    qed
    with Pair Inr show ?thesis by (simp add: DocumentNotFound_def)
  qed
qed

lemma extract_not_found_iff:
  "fst (extract_route L doc_id w) = Inl (DocumentNotFound doc_id)
     \<longleftrightarrow> (\<exists>e. fst (get_full_text L doc_id w) = Inl e)"
proof (cases "get_full_text L doc_id w")
  case (Pair r w1)
  show ?thesis
  proof (cases r)
    case (Inl e)
    with Pair show ?thesis by (simp add: extract_route_def)
  next
    case (Inr full_text)
    have "fst (extract_structured L full_text w1) \<noteq> Inl (HTTPException n m)" for n m
      by (cases "extract_chain L full_text")
        (simp_all add: extract_structured_def Let_def split: loads_result.splits)
    with Pair Inr show ?thesis by (simp add: extract_route_def DocumentNotFound_def)
  qed
qed

text \<open>
  Claim C1 fails on an index that opens collections as the constructor called by
  \<open>_get_vectorstore\<close> does: for an identifier under which the index holds no collection
  (nothing was stored under it, whatever was stored under others), \<open>ask\<close> returns the
  not-found answer with confidence 0 instead of raising, the full text is the empty string,
  and the route \<open>extract\<close> does not raise the not-found error either.
\<close>

theorem unknown_document_no_error:
  assumes "store w (collection_name doc_id) = None"
  shows "fst (ask (chroma_lib sp dst ca ce jl) doc_id question w)
           = Inr \<lparr>response_answer = ascii ''Not found in document.'',
                  response_source_text = None, response_confidence_score = 0\<rparr> \<and>
         fst (get_full_text (chroma_lib sp dst ca ce jl) doc_id w) = Inr [] \<and>
         fst (extract_route (chroma_lib sp dst ca ce jl) doc_id w) \<noteq> Inl (DocumentNotFound doc_id)"
proof -
  let ?L = "chroma_lib sp dst ca ce jl"
  let ?db = "(store w)(collection_name doc_id \<mapsto> [])"
  have o: "Chroma ?L (collection_name doc_id) (store w) = (Inr (), ?db)"
    using assms by (simp add: chroma_lib_def open_collection_def)
  have s: "similarity_search_with_score ?L (collection_name doc_id) question 3 ?db = Inr []"
    by (simp add: chroma_lib_def collection_docs_def)
  have g: "get ?L (collection_name doc_id) ?db = Inr ([], [])"
    by (simp add: chroma_lib_def collection_docs_def)
  have "retrieve ?L doc_id question 3 w = (Inr [], w\<lparr>store := ?db\<rparr>)"
    using retrieve_eq [OF o s] by simp
  then have a: "fst (ask ?L doc_id question w)
     = Inr \<lparr>response_answer = ascii ''Not found in document.'',
            response_source_text = None, response_confidence_score = 0\<rparr>"
    using ask_short_circuit [of ?L doc_id question w "[]"]
    by (simp add: max_score_def py_round_zero)
  have f: "get_full_text ?L doc_id w = (Inr [], w\<lparr>store := ?db\<rparr>)"
    using get_full_text_eq [OF o g] by (simp add: sort_by_chunk_index_def)
  have "fst (extract_route ?L doc_id w) \<noteq> Inl (DocumentNotFound doc_id)"
    by (cases "extract_chain ?L []")
      (simp_all add: extract_route_def f extract_structured_def Let_def DocumentNotFound_def
        split: loads_result.splits)
  with a f show ?thesis by simp
qed

theorem unknown_document_no_error_witness:
  "store example_world (collection_name (ascii ''xyz'')) = None \<and>
   fst (ask (example_lib 0) (ascii ''xyz'') (ascii ''q'') example_world)
     = Inr \<lparr>response_answer = ascii ''Not found in document.'',
            response_source_text = None, response_confidence_score = 0\<rparr> \<and>
   fst (get_full_text (example_lib 0) (ascii ''xyz'') example_world) = Inr [] \<and>
   fst (extract_route (example_lib 0) (ascii ''xyz'') example_world)
     \<noteq> Inl (DocumentNotFound (ascii ''xyz''))"
proof -
  have n: "store example_world (collection_name (ascii ''xyz'')) = None"
    by (simp add: example_world_def collection_name_def ascii_def)
  show ?thesis
    using unknown_document_no_error [OF n] n unfolding example_lib_def by simp
qed

section \<open>Instances\<close>

theorem store_chunks_indices_witness:
  "fst (store_chunks (example_lib 0) (ascii ''0123456789abcdef'') [ascii ''s1'', ascii ''s2'']
          (ascii ''f.txt'') fresh) = Inr (ascii ''0123456789ab'', 2) \<and>
   (\<exists>docs. calls (snd (store_chunks (example_lib 0) (ascii ''0123456789abcdef'')
                          [ascii ''s1'', ascii ''s2''] (ascii ''f.txt'') fresh))
              = calls fresh @ [FromDocuments (collection_name (ascii ''0123456789ab'')) docs] \<and>
           length docs = 2 \<and>
           map (\<lambda>d. dict_get (metadata d) chunk_index_key) docs = [Some (MInt 0), Some (MInt 1)] \<and>
           map page_content docs = [ascii ''s1'', ascii ''s2''])"
proof -
  have h: "fst (store_chunks (example_lib 0) (ascii ''0123456789abcdef'') [ascii ''s1'', ascii ''s2'']
          (ascii ''f.txt'') fresh) = Inr (ascii ''0123456789ab'', 2)"
    by (simp add: store_chunks_def Let_def example_defs update_metadata_def ascii_def)
  have u: "[0..<2] = [0, Suc 0]"
    by (simp add: upt_conv_Cons)
  show ?thesis
    using store_chunks_indices [OF h] h by (simp add: example_defs u)
qed

theorem get_full_text_sorted_witness:
  "get_full_text (example_lib 0) (ascii ''abc'') example_world
     = (Inr (ascii ''a'' @ [newline, newline] @ ascii ''b''), example_world) \<and>
   sorted (map index_of [(ascii ''a'', [(chunk_index_key, MInt 0)]), (ascii ''b'', [(chunk_index_key, MInt 1)])]) \<and>
   get_full_text (example_lib 0) (ascii ''abc'')
       (snd (get_full_text (example_lib 0) (ascii ''abc'') example_world))
     = get_full_text (example_lib 0) (ascii ''abc'') example_world"
proof -
  have p: "\<forall>p\<in>set (zip [ascii ''b'', ascii ''a'']
              [[(chunk_index_key, MInt 1)], [(chunk_index_key, MInt 0)]]).
            \<exists>i. dict_get (snd p) chunk_index_key = Some (MInt i)"
    by (simp add: dict_get_def)
  have s: "sort_key index_of (zip [ascii ''b'', ascii ''a'']
              [[(chunk_index_key, MInt 1)], [(chunk_index_key, MInt 0)]])
           = [(ascii ''a'', [(chunk_index_key, MInt 0)]), (ascii ''b'', [(chunk_index_key, MInt 1)])]"
    by (simp add: index_of_def dict_get_def)
  have w: "example_world\<lparr>store := store example_world\<rparr> = example_world"
    by simp
  show ?thesis
    using get_full_text_sorted [OF example_open example_get p]
    unfolding s w by simp
qed

theorem ask_below_threshold_witness:
  "retrieve (example_lib (3 / 4)) (ascii ''abc'') (ascii ''q'') 3 example_world =
     (Inr [\<lparr>chunk_text = ascii ''b'', score = 1 / 4, chunk_index = MInt 1\<rparr>,
           \<lparr>chunk_text = ascii ''a'', score = 1 / 4, chunk_index = MInt 0\<rparr>], example_world) \<and>
   max_score [\<lparr>chunk_text = ascii ''b'', score = 1 / 4, chunk_index = MInt 1\<rparr>,
              \<lparr>chunk_text = ascii ''a'', score = 1 / 4, chunk_index = MInt 0\<rparr>] < 3 / 10 \<and>
   ask (example_lib (3 / 4)) (ascii ''abc'') (ascii ''q'') example_world =
     (Inr \<lparr>response_answer = ascii ''Not found in document.'',
           response_source_text = None,
           response_confidence_score = 1 / 4\<rparr>, example_world)"
proof -
  have r: "retrieve (example_lib (3 / 4)) (ascii ''abc'') (ascii ''q'') 3 example_world =
     (Inr [\<lparr>chunk_text = ascii ''b'', score = 1 / 4, chunk_index = MInt 1\<rparr>,
           \<lparr>chunk_text = ascii ''a'', score = 1 / 4, chunk_index = MInt 0\<rparr>], example_world)"
    using example_retrieve [of "3 / 4" "ascii ''q''"] by (simp add: example_round)
  have m: "max_score [\<lparr>chunk_text = ascii ''b'', score = 1 / 4, chunk_index = MInt 1\<rparr>,
              \<lparr>chunk_text = ascii ''a'', score = 1 / 4, chunk_index = MInt 0\<rparr>] = 1 / 4"
    by (simp add: max_score_def)
  have l: "max_score [\<lparr>chunk_text = ascii ''b'', score = 1 / 4, chunk_index = MInt 1\<rparr>,
              \<lparr>chunk_text = ascii ''a'', score = 1 / 4, chunk_index = MInt 0\<rparr>] < 3 / 10"
    unfolding m by simp
  show ?thesis
    using ask_below_threshold [OF r l] r l unfolding m by (simp add: example_round)
qed

theorem ask_above_threshold_witness:
  "retrieve (ranked_lib (2499 / 5000) (4999 / 10000)) (ascii ''abc'') (ascii ''q'') 3 example_world =
     (Inr [\<lparr>chunk_text = ascii ''a'', score = 2501 / 5000, chunk_index = MInt 0\<rparr>,
           \<lparr>chunk_text = ascii ''b'', score = 5001 / 10000, chunk_index = MInt 1\<rparr>],
      example_world) \<and>
   3 / 10 \<le> max_score [\<lparr>chunk_text = ascii ''a'', score = 2501 / 5000, chunk_index = MInt 0\<rparr>,
                        \<lparr>chunk_text = ascii ''b'', score = 5001 / 10000, chunk_index = MInt 1\<rparr>] \<and>
   float_mean (ranked_lib (2499 / 5000) (4999 / 10000)) [2501 / 5000, 5001 / 10000]
     = 4504950707258707 / 9007199254740992 \<and>
   \<bar>4504950707258707 / 9007199254740992 - (2501 / 5000 + 5001 / 10000) / 2\<bar> < (1 / 60000 :: rat) \<and>
   (\<exists>r w3. ask (ranked_lib (2499 / 5000) (4999 / 10000)) (ascii ''abc'') (ascii ''q'') example_world
              = (Inr r, w3) \<and>
      response_answer r = ascii ''42'' \<and>
      response_confidence_score r = 5001 / 10000 \<and>
      \<bar>response_confidence_score r - (2501 / 5000 + 5001 / 10000) / 2\<bar> \<le> 1 / 20000 \<and>
      response_source_text r = Some (ascii ''a'')) \<and>
   float_mean (ranked_lib (3281 / 5000) (6563 / 10000)) [1719 / 5000, 3437 / 10000] = 11 / 32 \<and>
   (\<exists>r w3. ask (ranked_lib (3281 / 5000) (6563 / 10000)) (ascii ''abc'') (ascii ''q'') example_world
              = (Inr r, w3) \<and>
      response_answer r = ascii ''42'' \<and>
      response_confidence_score r = 1719 / 5000 \<and>
      \<bar>response_confidence_score r - (1719 / 5000 + 3437 / 10000) / 2\<bar> \<le> 1 / 20000 \<and>
      response_source_text r = Some (ascii ''a''))"
proof -
  have g: "retrieve (ranked_lib da db) (ascii ''abc'') (ascii ''q'') 3 example_world =
             (Inr [\<lparr>chunk_text = ascii ''a'', score = sa, chunk_index = MInt 0\<rparr>,
                   \<lparr>chunk_text = ascii ''b'', score = sb, chunk_index = MInt 1\<rparr>], example_world) \<and>
           (\<exists>r w3. ask (ranked_lib da db) (ascii ''abc'') (ascii ''q'') example_world = (Inr r, w3) \<and>
              response_answer r = ascii ''42'' \<and>
              response_confidence_score r = py_round (float_mean (ranked_lib da db) [sa, sb]) 4 \<and>
              \<bar>response_confidence_score r - (sa + sb) / 2\<bar> \<le> 1 / 20000 \<and>
              response_source_text r = Some (ascii ''a''))"
    if lt: "da < db" and sa: "py_round (1 - da) 4 = sa" and sb: "py_round (1 - db) 4 = sb"
      and hi: "3 / 10 \<le> sa"
      and fe: "\<bar>float_mean (ranked_lib da db) [sa, sb] - (sa + sb) / 2\<bar> < 1 / 60000"
    for da db sa sb
  proof -
    define chunks where "chunks =
      [\<lparr>chunk_text = ascii ''a'', score = sa, chunk_index = MInt 0\<rparr>,
       \<lparr>chunk_text = ascii ''b'', score = sb, chunk_index = MInt 1\<rparr>]"
    have r: "retrieve (ranked_lib da db) (ascii ''abc'') (ascii ''q'') 3 example_world
               = (Inr chunks, example_world)"
      using ranked_retrieve [OF lt, of "ascii ''q''"] by (simp add: sa sb chunks_def)
    have m: "3 / 10 \<le> max_score chunks"
      using hi by (simp add: max_score_def chunks_def)
    have n: "chunks \<noteq> []"
      by (simp add: chunks_def)
    have c: "ask_chain (ranked_lib da db) (join context_sep (map chunk_text chunks))
               (ascii ''a'' @ [newline, newline] @ ascii ''b'') (ascii ''q'') = Inr (ascii '' 42 '')"
      by (rule ranked_chain)
    have l: "length chunks \<le> 3 \<and>
             \<bar>float_mean (ranked_lib da db) (map score chunks)
                - sum_list (map score chunks) / of_nat (length chunks)\<bar> < 1 / 60000"
      using fe by (simp add: chunks_def)
    note t = ask_above_threshold [OF r n m]
    from conjunct2 [OF t] ranked_full_text [of da db] c
    obtain res w3 where
      a: "ask (ranked_lib da db) (ascii ''abc'') (ascii ''q'') example_world = (Inr res, w3)"
      and b: "response_answer res = strip (ascii '' 42 '')"
      by blast
    from conjunct1 [OF t] a l
    have "response_confidence_score res = py_round (float_mean (ranked_lib da db) (map score chunks)) 4"
      and "\<bar>response_confidence_score res
              - sum_list (map score chunks) / of_nat (length chunks)\<bar> \<le> 1 / 20000"
      and "response_source_text res = Some (chunk_text (hd chunks))"
      by blast+
    then have "response_confidence_score res = py_round (float_mean (ranked_lib da db) [sa, sb]) 4"
      and "\<bar>response_confidence_score res - (sa + sb) / 2\<bar> \<le> 1 / 20000"
      and "response_source_text res = Some (ascii ''a'')"
      by (simp_all add: chunks_def)
    with a b r show ?thesis
      unfolding chunks_def strip_42 by blast
  qed
  have s: "py_round (1 - 2499 / 5000) 4 = 2501 / 5000" "py_round (1 - 4999 / 10000) 4 = 5001 / 10000"
    "py_round (1 - 3281 / 5000) 4 = 1719 / 5000" "py_round (1 - 6563 / 10000) 4 = 3437 / 10000"
    by (simp_all add: example_round_scores)
  have "3 / 10 \<le> max_score [\<lparr>chunk_text = ascii ''a'', score = 2501 / 5000, chunk_index = MInt 0\<rparr>,
                        \<lparr>chunk_text = ascii ''b'', score = 5001 / 10000, chunk_index = MInt 1\<rparr>]"
    by (simp add: max_score_def)
  then show ?thesis
    using g [OF _ s(1) s(2)] g [OF _ s(3) s(4)]
    by (simp add: example_means example_round_means)
qed

theorem ask_threshold_on_rounded_witness:
  "rounded_max [(example_docs ! 0, 3 / 4), (example_docs ! 1, 3 / 4)] < 3 / 10 \<and>
   ask (example_lib (3 / 4)) (ascii ''abc'') (ascii ''q'') example_world =
     (Inr \<lparr>response_answer = ascii ''Not found in document.'',
           response_source_text = None,
           response_confidence_score = 1 / 4\<rparr>, example_world) \<and>
   3 / 10 \<le> rounded_max [(example_docs ! 0, 70004 / 100000), (example_docs ! 1, 70004 / 100000)] \<and>
   calls (snd (ask (example_lib (70004 / 100000)) (ascii ''abc'') (ascii ''q'') example_world)) =
     [AskChain (ascii ''b'' @ context_sep @ ascii ''a'')
        (ascii ''a'' @ [newline, newline] @ ascii ''b'') (ascii ''q'')]"
proof -
  have lo: "rounded_max [(example_docs ! 0, 3 / 4), (example_docs ! 1, 3 / 4)] = 1 / 4"
    by (simp add: rounded_max_def example_round)
  have hi: "rounded_max [(example_docs ! 0, 70004 / 100000), (example_docs ! 1, 70004 / 100000)] = 3 / 10"
    by (simp add: rounded_max_def example_round)
  have w: "example_world\<lparr>store := store example_world\<rparr> = example_world"
    by simp
  have c: "join context_sep (map (\<lambda>r. page_content (fst r))
             [(example_docs ! 0, 70004 / 100000 :: rat), (example_docs ! 1, 70004 / 100000)])
           = ascii ''b'' @ context_sep @ ascii ''a''"
    by (simp add: example_docs_def)
  have "ask (example_lib (3 / 4)) (ascii ''abc'') (ascii ''q'') example_world =
     (Inr \<lparr>response_answer = ascii ''Not found in document.'',
           response_source_text = None,
           response_confidence_score = 1 / 4\<rparr>, example_world)"
    using ask_threshold_on_rounded [OF example_open example_search, of "3 / 4" "ascii ''q''"]
    unfolding lo w by simp
  moreover have "calls (snd (ask (example_lib (70004 / 100000)) (ascii ''abc'') (ascii ''q'') example_world)) =
     [AskChain (ascii ''b'' @ context_sep @ ascii ''a'')
        (ascii ''a'' @ [newline, newline] @ ascii ''b'') (ascii ''q'')]"
    using ask_threshold_on_rounded [OF example_open example_search, of "70004 / 100000" "ascii ''q''"]
      example_full_text [of "70004 / 100000"]
    unfolding hi w c by (simp add: example_calls)
  ultimately show ?thesis unfolding lo hi by simp
qed

section \<open>Structured extraction\<close>

subsection \<open>Lines, fences and white space\<close>

lemma split_from_single_step:
  "split_from [c] cur (x # xs) =
     (if x = c then cur # split_from [c] [] xs else split_from [c] (cur @ [x]) xs)"
  by simp

lemma split_from_append:
  "split_from [c] cur (a @ c # b) = split_from [c] cur a @ split_from [c] [] b"
  by (induction a arbitrary: cur) (simp_all del: split_from.simps(2) add: split_from_single_step)

lemma split_from_no_sep: "c \<notin> set a \<Longrightarrow> split_from [c] cur a = [cur @ a]"
  by (induction a arbitrary: cur) (simp_all del: split_from.simps(2) add: split_from_single_step)

lemma split_from_not_Nil: "split_from [c] cur s \<noteq> []"
  by (induction s arbitrary: cur) (simp_all del: split_from.simps(2) add: split_from_single_step)

lemma join_Cons: "join sep (x # xs) = (if xs = [] then x else x @ sep @ join sep xs)"
  by (cases xs) simp_all

lemma join_split_from: "join [c] (split_from [c] cur s) = cur @ s"
  by (induction s arbitrary: cur)
     (simp_all del: split_from.simps(2) add: split_from_single_step join_Cons split_from_not_Nil)

lemma join_py_split: "join [c] (py_split s [c]) = s"
  by (simp add: py_split_def join_split_from)

lemma py_split_append: "py_split (a @ c # b) [c] = py_split a [c] @ py_split b [c]"
  by (simp add: py_split_def split_from_append)

lemma py_split_no_sep: "c \<notin> set a \<Longrightarrow> py_split a [c] = [a]"
  by (simp add: py_split_def split_from_no_sep)

lemma lstrip_Cons: "\<not> isspace c \<Longrightarrow> lstrip (c # s) = c # s"
  by (simp add: lstrip_def)

lemma rstrip_snoc: "\<not> isspace c \<Longrightarrow> rstrip (s @ [c]) = s @ [c]"
  by (simp add: rstrip_def)

lemma rstrip_prefix: "p \<noteq> [] \<Longrightarrow> \<not> isspace (last p) \<Longrightarrow> \<exists>t. rstrip (p @ s) = p @ t"
proof (induction s rule: rev_induct)
  case Nil
  then have "rstrip (butlast p @ [last p]) = butlast p @ [last p]"
    by (intro rstrip_snoc)
  with Nil show ?case by simp
next
  case (snoc x xs)
  show ?case
  proof (cases "isspace x")
    case True
    then have "rstrip (p @ xs @ [x]) = rstrip (p @ xs)"
      by (simp add: rstrip_def)
    with snoc show ?thesis by simp
  next
    case False
    then have "rstrip ((p @ xs) @ [x]) = (p @ xs) @ [x]"
      by (rule rstrip_snoc)
    then show ?thesis by simp
  qed
qed

lemma not_isspace_96: "\<not> isspace 96"
  by (simp add: isspace_def)

lemma strip_fence_prefix: "startswith (strip (fence @ s)) fence"
proof -
  have "lstrip (fence @ s) = fence @ s"
    by (simp add: fence_def lstrip_Cons not_isspace_96)
  moreover obtain t where "rstrip (fence @ s) = fence @ t"
    using rstrip_prefix [of fence s] by (auto simp: fence_def not_isspace_96)
  ultimately show ?thesis by (simp add: strip_def startswith_def)
qed

lemma strip_fenced: "strip (fenced lang r) = fenced lang r"
proof -
  have "lstrip (fenced lang r) = fenced lang r"
    by (simp add: fenced_def fence_def lstrip_Cons not_isspace_96)
  moreover have "rstrip (fenced lang r) = fenced lang r"
    using rstrip_snoc [of 96 "[96, 96, 96] @ lang @ [newline] @ r @ [newline, 96, 96]"]
    by (simp add: fenced_def fence_def not_isspace_96)
  ultimately show ?thesis by (simp add: strip_def)
qed

lemma lstrip_blank: "blank ws \<Longrightarrow> lstrip (ws @ s) = lstrip s"
  by (induction ws) (simp_all add: lstrip_def blank_def)

lemma rstrip_blank:
  assumes "blank ws"
  shows "rstrip (s @ ws) = rstrip s"
proof -
  have "dropWhile isspace (rev ws @ rev s) = dropWhile isspace (rev s)"
    using assms by (intro dropWhile_append2) (simp add: blank_def list_all_iff)
  then show ?thesis by (simp add: rstrip_def)
qed

lemma strip_padded_fenced:
  assumes "blank pre" and "blank post"
  shows "strip (pre @ fenced lang r @ post) = fenced lang r"
proof -
  have l: "lstrip (fenced lang r @ post) = fenced lang r @ post"
    by (simp add: fenced_def fence_def lstrip_Cons not_isspace_96)
  have "strip (pre @ fenced lang r @ post) = rstrip (lstrip (fenced lang r @ post))"
    using assms(1) by (simp add: strip_def lstrip_blank)
  also have "\<dots> = rstrip (fenced lang r)"
    using assms(2) by (simp only: l rstrip_blank)
  also have "\<dots> = strip (fenced lang r)"
    by (simp add: strip_def fenced_def fence_def lstrip_Cons not_isspace_96)
  finally show ?thesis by (simp add: strip_fenced)
qed

lemma py_split_fenced:
  assumes "newline \<notin> set lang"
  shows "py_split (fenced lang r) [newline] = (fence @ lang) # py_split r [newline] @ [fence]"
proof -
  have f: "newline \<notin> set fence" by (simp add: fence_def newline_def)
  have "py_split (fenced lang r) [newline]
          = py_split (fence @ lang) [newline] @ py_split (r @ newline # fence) [newline]"
    using py_split_append [of "fence @ lang" newline "r @ newline # fence"]
    by (simp add: fenced_def)
  also have "py_split (fence @ lang) [newline] = [fence @ lang]"
    using assms f by (intro py_split_no_sep) simp
  also have "py_split (r @ newline # fence) [newline] = py_split r [newline] @ [fence]"
    using f by (simp add: py_split_append py_split_no_sep)
  finally show ?thesis by simp
qed

lemma unfence_fenced:
  assumes "newline \<notin> set lang"
      and "\<forall>l\<in>set (py_split r [newline]). \<not> startswith (strip l) fence"
      and "blank pre" and "blank post"
  shows "unfence (strip (pre @ fenced lang r @ post)) = r"
proof -
  have s: "startswith (fenced lang r) fence"
    by (simp add: fenced_def startswith_def fence_def)
  have l: "startswith (strip (fence @ lang)) fence" "startswith (strip fence) fence"
    using strip_fence_prefix [of lang] strip_fence_prefix [of "[]"] by simp_all
  have "filter (\<lambda>l. \<not> startswith (strip l) fence) (py_split (fenced lang r) [newline])
          = py_split r [newline]"
    unfolding py_split_fenced [OF assms(1)] using assms(2) l by simp
  then show ?thesis
    by (simp add: unfence_def strip_padded_fenced [OF assms(3,4)] s join_py_split)
qed

lemma rev_dropWhile_takeWhile: "rev (dropWhile P (rev xs)) @ rev (takeWhile P (rev xs)) = xs"
  by (metis rev_append rev_rev_ident takeWhile_dropWhile_id)

lemma rstrip_is_prefix: "rstrip s @ rev (takeWhile isspace (rev s)) = s"
  by (simp add: rstrip_def rev_dropWhile_takeWhile)

lemma startswith_rstrip:
  assumes "startswith (rstrip s) p"
  shows "startswith s p"
proof -
  from assms have t: "take (length p) (rstrip s) = p" by (simp add: startswith_def)
  have "length (take (length p) (rstrip s)) = length p"
    by (simp only: t)
  then have "length p \<le> length (rstrip s)"
    by simp
  then have "take (length p) (rstrip s @ rev (takeWhile isspace (rev s))) = take (length p) (rstrip s)"
    by simp
  with t show ?thesis by (simp only: rstrip_is_prefix startswith_def)
qed

text \<open>A piece of text without a line break lies within one line of the text around it.\<close>

lemma line_around:
  assumes "newline \<notin> set m"
  shows "rev (takeWhile (\<lambda>c. c \<noteq> newline) (rev u)) @ m @ takeWhile (\<lambda>c. c \<noteq> newline) v
           \<in> set (py_split (u @ m @ v) [newline])"
proof -
  define p where "p = rev (takeWhile (\<lambda>c. c \<noteq> newline) (rev u))"
  define a where "a = rev (dropWhile (\<lambda>c. c \<noteq> newline) (rev u))"
  define q where "q = takeWhile (\<lambda>c. c \<noteq> newline) v"
  define b where "b = dropWhile (\<lambda>c. c \<noteq> newline) v"
  define l where "l = p @ m @ q"
  have u: "u = a @ p"
    by (simp add: a_def p_def rev_dropWhile_takeWhile)
  have v: "v = q @ b" by (simp add: q_def b_def)
  have "newline \<notin> set p"
    unfolding p_def using set_takeWhileD [of newline "\<lambda>c. c \<noteq> newline" "rev u"] by auto
  moreover have "newline \<notin> set q"
    unfolding q_def using set_takeWhileD [of newline "\<lambda>c. c \<noteq> newline" v] by auto
  ultimately have nl: "newline \<notin> set l" using assms by (simp add: l_def)
  have lb: "l \<in> set (py_split (l @ b) [newline])"
  proof (cases b)
    case Nil
    with nl show ?thesis by (simp add: py_split_no_sep)
  next
    case (Cons x b')
    then have "x = newline"
      using hd_dropWhile [of "\<lambda>c. c \<noteq> newline" v] by (simp add: b_def)
    with Cons nl show ?thesis by (simp add: py_split_append py_split_no_sep)
  qed
  have "l \<in> set (py_split (a @ l @ b) [newline])"
  proof (cases "a = []")
    case True
    with lb show ?thesis by simp
  next
    case False
    then have "dropWhile (\<lambda>c. c \<noteq> newline) (rev u) \<noteq> []" by (simp add: a_def)
    then have "hd (dropWhile (\<lambda>c. c \<noteq> newline) (rev u)) = newline"
      using hd_dropWhile [of "\<lambda>c. c \<noteq> newline" "rev u"] by simp
    then have "last a = newline"
      using False by (simp add: a_def last_rev)
    with False obtain a' where a': "a = a' @ [newline]"
      using append_butlast_last_id [of a] by metis
    have "py_split (a @ l @ b) [newline] = py_split a' [newline] @ py_split (l @ b) [newline]"
      unfolding a' using py_split_append [of a' newline "l @ b"] by simp
    then show ?thesis using lb by simp
  qed
  moreover have "u @ m @ v = a @ l @ b"
    using u v by (simp add: l_def)
  ultimately show ?thesis by (simp add: l_def p_def q_def)
qed

lemma lstrip_spaces: "\<forall>c\<in>set ws. isspace c \<Longrightarrow> lstrip (ws @ s) = lstrip s"
  by (induction ws) (simp_all add: lstrip_def)

lemma fence_line:
  assumes "startswith (strip r) fence"
  shows "\<exists>l\<in>set (py_split r [newline]). startswith (strip l) fence"
proof -
  define ws where "ws = takeWhile isspace r"
  from assms have "startswith (lstrip r) fence"
    unfolding strip_def by (rule startswith_rstrip)
  then have "take (length fence) (lstrip r) = fence"
    by (simp only: startswith_def)
  then have "lstrip r = fence @ drop (length fence) (lstrip r)"
    by (metis append_take_drop_id)
  then obtain rest where rest: "dropWhile isspace r = fence @ rest"
    by (auto simp: lstrip_def)
  have r: "r = ws @ fence @ rest"
    using takeWhile_dropWhile_id [of isspace r] rest by (simp add: ws_def)
  have sp: "\<forall>c\<in>set ws. isspace c"
    unfolding ws_def using set_takeWhileD [of _ isspace r] by blast
  define l where "l = rev (takeWhile (\<lambda>c. c \<noteq> newline) (rev ws)) @ fence
                        @ takeWhile (\<lambda>c. c \<noteq> newline) rest"
  have "newline \<notin> set fence" by (simp add: fence_def newline_def)
  then have "l \<in> set (py_split (ws @ fence @ rest) [newline])"
    unfolding l_def by (rule line_around)
  then have "l \<in> set (py_split r [newline])" using r by simp
  moreover have "startswith (strip l) fence"
  proof -
    have "\<forall>c\<in>set (rev (takeWhile (\<lambda>c. c \<noteq> newline) (rev ws))). isspace c"
      using sp set_takeWhileD [of _ "\<lambda>c. c \<noteq> newline" "rev ws"] by auto
    then have "lstrip l = lstrip (fence @ takeWhile (\<lambda>c. c \<noteq> newline) rest)"
      unfolding l_def by (rule lstrip_spaces)
    also have "\<dots> = fence @ takeWhile (\<lambda>c. c \<noteq> newline) rest"
      by (simp add: fence_def lstrip_Cons not_isspace_96)
    finally have "strip l = rstrip (fence @ takeWhile (\<lambda>c. c \<noteq> newline) rest)"
      by (simp add: strip_def)
    moreover obtain t where "rstrip (fence @ takeWhile (\<lambda>c. c \<noteq> newline) rest) = fence @ t"
      using rstrip_prefix [of fence] by (auto simp: fence_def not_isspace_96)
    ultimately show ?thesis by (simp add: startswith_def)
  qed
  ultimately show ?thesis by blast
qed

subsection \<open>The outcomes of parsing\<close>

text \<open>
  Claim C5 fails when \<open>json.loads\<close> raises an exception that is not a
  \<open>JSONDecodeError\<close>: the handler of \<open>extract_structured\<close> names that class only, so
  the exception leaves the function and no dictionary is returned. Let \<open>raw\<close> be the
  stripped output of the chain, without the lines that begin with a fence when it
  begins with a fence. When \<open>json.loads\<close> raises \<open>JSONDecodeError\<close> on \<open>raw\<close>, the
  result is the dictionary with \<open>raw\<close> under \<open>raw_response\<close> and the message under
  \<open>error\<close>; when it parses \<open>raw\<close>, the result is the parsed value; when it raises
  another exception, as it does on a text that nests too deeply, \<open>extract_structured\<close>
  raises it.
\<close>

theorem extract_structured_outcomes:
  assumes "extract_chain L full_text = Inr out"
      and "raw = (if startswith (strip out) fence
                  then join [newline]
                         (filter (\<lambda>l. \<not> startswith (strip l) fence) (py_split (strip out) [newline]))
                  else strip out)"
  shows "(\<forall>name. json_loads L raw = OtherError name \<longrightarrow>
           fst (extract_structured L full_text w) = Inl (LibraryError name)) \<and>
         (json_loads L raw = JSONDecodeError \<longrightarrow>
           fst (extract_structured L full_text w) =
             Inr (JDict [(ascii ''raw_response'', JStr raw),
                         (ascii ''error'', JStr (ascii ''Failed to parse LLM JSON output''))])) \<and>
         (\<forall>v. json_loads L raw = Parsed v \<longrightarrow>
           fst (extract_structured L full_text w) = Inr v)"
proof -
  from assms(2) have "unfence (strip out) = raw"
    by (simp add: unfence_def)
  with assms(1) show ?thesis
    by (simp add: extract_structured_def Let_def parse_failure_def)
qed

text \<open>
  Claim C6. Let \<open>r\<close> be valid JSON: \<open>json.loads\<close> parses it to \<open>v\<close>, and, as for every
  JSON text, parses it to the same value without the white space around it, and none of
  its lines begins, after white space, with the fence mark (a line break stands only
  between tokens, and no token begins with a grave accent). Then the run in which the
  chain returns \<open>r\<close> between an opening fence line, with or without the name of a
  language, and a closing fence line (white space may stand before and after the fences),
  and the run in which it returns \<open>r\<close> itself, both return \<open>v\<close>.
\<close>

theorem fenced_response_same:
  assumes "json_loads L r = Parsed v"
      and "json_loads L (strip r) = Parsed v"
      and "\<forall>l\<in>set (py_split r [newline]). \<not> startswith (strip l) fence"
      and "newline \<notin> set lang"
      and "blank pre" and "blank post"
  shows "fst (extract_structured (L\<lparr>extract_chain := \<lambda>t. Inr (pre @ fenced lang r @ post)\<rparr>)
                full_text w) = Inr v \<and>
         fst (extract_structured (L\<lparr>extract_chain := \<lambda>t. Inr r\<rparr>) full_text w) = Inr v"
proof -
  from assms(3) have "\<not> startswith (strip r) fence"
    using fence_line [of r] by blast
  then have "unfence (strip r) = strip r"
    by (simp add: unfence_def)
  with assms show ?thesis
    by (simp add: extract_structured_def Let_def unfence_fenced)
qed

subsection \<open>Instances\<close>

lemma example_loads:
  "json_loads (example_lib d) s =
     (if strip s = ascii ''{}'' then Parsed (JDict [])
      else if strip s = deep_brackets then OtherError (ascii ''RecursionError'')
      else JSONDecodeError)"
  by (simp add: example_lib_def chroma_lib_def)

lemma example_extract_chain: "extract_chain (example_lib d) t = Inr (ascii ''{}'')"
  by (simp add: example_lib_def chroma_lib_def)

lemma deep_brackets_plain:
  "strip deep_brackets = deep_brackets" "newline \<notin> set deep_brackets"
  "\<not> startswith deep_brackets fence" "deep_brackets \<noteq> ascii ''{}''"
  "ascii ''no json'' \<noteq> deep_brackets"
proof -
  have n: "deep_brackets = 91 # replicate 99999 91"
    unfolding deep_brackets_def using replicate_Suc [of 99999 "91 :: nat"] by simp
  show "strip deep_brackets = deep_brackets"
    by (simp add: deep_brackets_def strip_def lstrip_def rstrip_def isspace_def)
  show "newline \<notin> set deep_brackets"
    by (simp add: deep_brackets_def newline_def)
  show "\<not> startswith deep_brackets fence"
    unfolding n by (simp add: startswith_def fence_def)
  show "deep_brackets \<noteq> ascii ''{}''"
    unfolding n by (simp add: ascii_def)
  show "ascii ''no json'' \<noteq> deep_brackets"
    unfolding n by (simp add: ascii_def)
qed

lemma strip_no_json: "strip (ascii ''no json'') = ascii ''no json''"
  by (simp add: str_defs)

theorem extract_structured_outcomes_witness:
  "fst (extract_structured ((example_lib 0)\<lparr>extract_chain := \<lambda>t. Inr deep_brackets\<rparr>) [] fresh)
     = Inl (LibraryError (ascii ''RecursionError'')) \<and>
   fst (extract_structured
          ((example_lib 0)\<lparr>extract_chain :=
             \<lambda>t. Inr ([32] @ fenced (ascii ''json'') deep_brackets @ [newline])\<rparr>) [] fresh)
     = Inl (LibraryError (ascii ''RecursionError'')) \<and>
   fst (extract_structured
          ((example_lib 0)\<lparr>extract_chain :=
             \<lambda>t. Inr ([32] @ fenced [] (ascii ''no json'') @ [newline])\<rparr>) [] fresh)
     = Inr (JDict [(ascii ''raw_response'', JStr (ascii ''no json'')),
                   (ascii ''error'', JStr (ascii ''Failed to parse LLM JSON output''))]) \<and>
   fst (extract_structured (example_lib 0) [] fresh) = Inr (JDict [])"
proof -
  have bl: "blank [32]" "blank [newline]"
    by (simp_all add: blank_def isspace_def newline_def)
  have nl: "newline \<notin> set (ascii ''json'')" "newline \<notin> set []"
    by (simp_all add: ascii_def newline_def)
  have ch: "extract_chain ((example_lib 0)\<lparr>extract_chain := \<lambda>t. Inr out\<rparr>) [] = Inr out" for out
    by simp
  have j: "json_loads (example_lib 0) deep_brackets = OtherError (ascii ''RecursionError'')"
    "json_loads (example_lib 0) (ascii ''no json'') = JSONDecodeError"
    "json_loads (example_lib 0) (ascii ''{}'') = Parsed (JDict [])"
    unfolding example_loads deep_brackets_plain(1) strip_no_json
    using deep_brackets_plain(4,5) by (simp_all add: str_defs)
  have "deep_brackets = (if startswith (strip deep_brackets) fence
          then join [newline] (filter (\<lambda>l. \<not> startswith (strip l) fence)
                 (py_split (strip deep_brackets) [newline]))
          else strip deep_brackets)"
    by (simp add: deep_brackets_plain)
  from extract_structured_outcomes [OF ch this, where w = fresh]
  have a: "fst (extract_structured ((example_lib 0)\<lparr>extract_chain := \<lambda>t. Inr deep_brackets\<rparr>) [] fresh)
             = Inl (LibraryError (ascii ''RecursionError''))"
    by (simp add: j)
  have "\<forall>l\<in>set (py_split deep_brackets [newline]). \<not> startswith (strip l) fence"
    by (simp add: py_split_no_sep deep_brackets_plain)
  note e = unfence_fenced [OF nl(1) this bl, unfolded unfence_def, symmetric]
  from extract_structured_outcomes [OF ch e, where w = fresh]
  have b: "fst (extract_structured
          ((example_lib 0)\<lparr>extract_chain :=
             \<lambda>t. Inr ([32] @ fenced (ascii ''json'') deep_brackets @ [newline])\<rparr>) [] fresh)
          = Inl (LibraryError (ascii ''RecursionError''))"
    by (simp add: j)
  have "\<forall>l\<in>set (py_split (ascii ''no json'') [newline]). \<not> startswith (strip l) fence"
    by (simp add: str_defs fence_def)
  note e = unfence_fenced [OF nl(2) this bl, unfolded unfence_def, symmetric]
  from extract_structured_outcomes [OF ch e, where w = fresh]
  have c: "fst (extract_structured
          ((example_lib 0)\<lparr>extract_chain :=
             \<lambda>t. Inr ([32] @ fenced [] (ascii ''no json'') @ [newline])\<rparr>) [] fresh)
          = Inr (JDict [(ascii ''raw_response'', JStr (ascii ''no json'')),
                        (ascii ''error'', JStr (ascii ''Failed to parse LLM JSON output''))])"
    by (simp add: j)
  have "ascii ''{}'' = (if startswith (strip (ascii ''{}'')) fence
          then join [newline] (filter (\<lambda>l. \<not> startswith (strip l) fence)
                 (py_split (strip (ascii ''{}'')) [newline]))
          else strip (ascii ''{}''))"
    by (simp add: str_defs fence_def)
  from extract_structured_outcomes [OF example_extract_chain [of 0 "[]"] this, where w = fresh]
  have d: "fst (extract_structured (example_lib 0) [] fresh) = Inr (JDict [])"
    by (simp add: j)
  from a b c d show ?thesis by simp
qed

theorem fenced_response_same_witness:
  "fst (extract_structured
          ((example_lib 0)\<lparr>extract_chain :=
             \<lambda>t. Inr ([] @ fenced (ascii ''json'') (ascii ''{}\<newline>'') @ [newline])\<rparr>)
          [] fresh) = Inr (JDict []) \<and>
   fst (extract_structured
          ((example_lib 0)\<lparr>extract_chain := \<lambda>t. Inr (ascii ''{}\<newline>'')\<rparr>) [] fresh)
     = Inr (JDict [])"
proof -
  have a: "json_loads (example_lib 0) (ascii ''{}\<newline>'') = Parsed (JDict [])"
    "json_loads (example_lib 0) (strip (ascii ''{}\<newline>'')) = Parsed (JDict [])"
    by (simp_all add: example_loads str_defs)
  have b: "\<forall>l\<in>set (py_split (ascii ''{}\<newline>'') [newline]). \<not> startswith (strip l) fence"
    by (simp add: str_defs fence_def)
  have c: "newline \<notin> set (ascii ''json'')"
    by (simp add: ascii_def newline_def)
  show ?thesis
    using fenced_response_same [OF a b c, of "[]" "[newline]"]
    by (simp add: blank_def isspace_def newline_def)
qed

end
